theory Spec2Isabelle
  imports Complex_Main "HOL-Library.Char_ord" "HOL-Library.List_Lexorder" "HOL-Library.AList"
begin

section \<open>Python values, rows and frames\<close>

text \<open>
  The analysis agent (\<^verbatim>\<open>src/analyzer/analysis_agent.py\<close>) works on JSON-like Python values
  and on a pandas DataFrame built from them. A value is modelled by \<open>pyval\<close>; a row of the
  DataFrame is an association list from column name to cell, in column order, and a frame is
  the list of its rows. Strings are ASCII character lists; a code point beyond ASCII is outside
  this model. Floating-point numbers are not modelled, except for the not-a-number cell
  \<open>PNaN\<close> that pandas puts where a record lacks a key.
\<close>

datatype exn = AttributeError | TypeError | KeyError | ValueError | OtherError

datatype datetime =
  DateTime (year: nat) (month: nat) (mday: nat) (hour: nat) (minute: nat) (second: nat)

datatype pyval =
    PNone
  | PNaN
  | PBool bool
  | PInt int
  | PStr string
  | PTime datetime
  | PList "pyval list"
  | PDict "(string \<times> pyval) list"

type_synonym row = "(string \<times> pyval) list"
type_synonym frame = "row list"

text \<open>
  What the agent takes from its libraries and from the clock is a parameter of the model:
  \<^item> \<open>nlp\<close>: \<open>None\<close> when \<^verbatim>\<open>nlp_available\<close> is false, otherwise TextBlob's polarity of a text
    (which may raise);
  \<^item> \<open>tfidf\<close>: \<^verbatim>\<open>TfidfVectorizer(stop_words='english', max_features=top_n)\<close> fitted on the texts,
    giving its feature names (or raising);
  \<^item> \<open>to_datetime\<close>: \<^verbatim>\<open>pd.to_datetime(..., errors='coerce')\<close> on one cell: a time, \<open>None\<close> for NaT,
    or an exception;
  \<^item> \<open>now\<close>: the reading of the clock (\<^verbatim>\<open>datetime.now()\<close>, \<^verbatim>\<open>pd.Timestamp.now()\<close>);
  \<^item> \<open>DataFrame\<close>: the constructor \<^verbatim>\<open>pd.DataFrame(data)\<close>;
  \<^item> \<open>repr\<close>: Python's \<^verbatim>\<open>str(x)\<close> for a value that is not a string.
\<close>

datatype env = Env
  (nlp: "(string \<Rightarrow> exn + real) option")
  (tfidf: "string list \<Rightarrow> nat \<Rightarrow> exn + string list")
  (to_datetime: "pyval \<Rightarrow> exn + datetime option")
  (now: datetime)
  (DataFrame: "pyval \<Rightarrow> exn + frame")
  (repr: "pyval \<Rightarrow> string")

definition str :: "env \<Rightarrow> pyval \<Rightarrow> string" where
  "str e v = (case v of PStr s \<Rightarrow> s | _ \<Rightarrow> repr e v)"

fun truthy :: "pyval \<Rightarrow> bool" where
  "truthy PNone = False"
| "truthy PNaN = True"
| "truthy (PBool b) = b"
| "truthy (PInt i) = (i \<noteq> 0)"
| "truthy (PStr s) = (s \<noteq> [])"
| "truthy (PTime t) = True"
| "truthy (PList xs) = (xs \<noteq> [])"
| "truthy (PDict kvs) = (kvs \<noteq> [])"

subsection \<open>Strings\<close>

definition lower_char :: "char \<Rightarrow> char" where
  "lower_char c =
     (if CHR ''A'' \<le> c \<and> c \<le> CHR ''Z'' then char_of (of_char c + (32::nat)) else c)"

definition lower :: "string \<Rightarrow> string" where
  "lower s = map lower_char s"

fun startswith :: "string \<Rightarrow> string \<Rightarrow> bool" where
  "startswith t [] = True"
| "startswith [] (p # ps) = False"
| "startswith (c # cs) (p # ps) = (c = p \<and> startswith cs ps)"

text \<open>\<open>contains t p\<close> is Python's \<^verbatim>\<open>p in t\<close> on strings.\<close>

fun contains :: "string \<Rightarrow> string \<Rightarrow> bool" where
  "contains [] p = (p = [])"
| "contains (c # cs) p = (startswith (c # cs) p \<or> contains cs p)"

text \<open>
  Every pattern of the agent is an alternation of literals, \<^verbatim>\<open>(a1|a2|...)\<close>, so
  \<^verbatim>\<open>re.search\<close> finds a match exactly when one alternative occurs in the text.
\<close>

definition re_search :: "string list \<Rightarrow> string \<Rightarrow> bool" where
  "re_search alts text = list_ex (contains text) alts"

text \<open>Zero-padded decimals, for \<^verbatim>\<open>strftime\<close>, \<^verbatim>\<open>isoformat\<close> and the day key.\<close>

definition digit_char :: "nat \<Rightarrow> char" where
  "digit_char n = char_of (48 + n mod 10)"

fun pad :: "nat \<Rightarrow> nat \<Rightarrow> string" where
  "pad 0 n = []"
| "pad (Suc w) n = pad w (n div 10) @ [digit_char n]"

definition date_str :: "datetime \<Rightarrow> string" where
  "date_str t = pad 4 (year t) @ ''-'' @ pad 2 (month t) @ ''-'' @ pad 2 (mday t)"

definition clock_str :: "datetime \<Rightarrow> string" where
  "clock_str t = pad 2 (hour t) @ '':'' @ pad 2 (minute t) @ '':'' @ pad 2 (second t)"

definition strftime :: "datetime \<Rightarrow> string" where
  "strftime t = date_str t @ '' '' @ clock_str t"

definition isoformat :: "datetime \<Rightarrow> string" where
  "isoformat t = date_str t @ ''T'' @ clock_str t"

section \<open>Text classifier\<close>

definition positive_words :: "string list" where
  "positive_words = [''good'', ''great'', ''excellent'', ''amazing'', ''love'', ''like'']"

definition negative_words :: "string list" where
  "negative_words = [''bad'', ''poor'', ''terrible'', ''awful'', ''hate'', ''dislike'']"

definition analyze_sentiment :: "env \<Rightarrow> pyval \<Rightarrow> string" where
  "analyze_sentiment e text =
     (case nlp e of
        None \<Rightarrow>
          (let text = lower (str e text);
               pos_count = length (filter (contains text) positive_words);
               neg_count = length (filter (contains text) negative_words)
           in if pos_count > neg_count then ''positive''
              else if neg_count > pos_count then ''negative''
              else ''neutral'')
      | Some polarity \<Rightarrow>
          (case polarity (str e text) of
             Inl _ \<Rightarrow> ''neutral''
           | Inr p \<Rightarrow>
               if p > 1 / 10 then ''positive''
               else if p < - (1 / 10) then ''negative''
               else ''neutral''))"

definition bug_pattern :: "string list" where
  "bug_pattern =
     [''bug'', ''error'', ''crash'', ''issue'', ''not working'', ''broken'', ''fails'', ''failure'']"

definition feature_pattern :: "string list" where
  "feature_pattern =
     [''feature'', ''add'', ''can you make'', ''wishlist'', ''would be nice'', ''please include'']"

definition ux_pattern :: "string list" where
  "ux_pattern =
     [''slow'', ''bad ux'', ''confusing'', ''difficult'', ''hard to use'', ''complicated'']"

definition praise_pattern :: "string list" where
  "praise_pattern =
     [''great'', ''love'', ''awesome'', ''happy'', ''excellent'', ''amazing'', ''good'']"

definition categorize_feedback :: "env \<Rightarrow> pyval \<Rightarrow> string" where
  "categorize_feedback e text =
     (let text = lower (str e text)
      in if re_search bug_pattern text then ''bug''
         else if re_search feature_pattern text then ''feature_request''
         else if re_search ux_pattern text then ''ux_issue''
         else if re_search praise_pattern text then ''positive_feedback''
         else ''other'')"

definition urgent_pattern :: "string list" where
  "urgent_pattern = [''crash'', ''urgent'', ''critical'', ''emergency'', ''severe'', ''blocked'']"

text \<open>\<open>getitem row k\<close> is \<^verbatim>\<open>row[k]\<close>: a missing key raises.\<close>

definition getitem :: "row \<Rightarrow> string \<Rightarrow> exn + pyval" where
  "getitem row k = (case map_of row k of None \<Rightarrow> Inl KeyError | Some v \<Rightarrow> Inr v)"

definition determine_urgency :: "env \<Rightarrow> row \<Rightarrow> exn + string" where
  "determine_urgency e row =
     (case getitem row ''text'' of Inl x \<Rightarrow> Inl x | Inr t \<Rightarrow>
      (case getitem row ''sentiment'' of Inl x \<Rightarrow> Inl x | Inr sentiment \<Rightarrow>
       (case getitem row ''category'' of Inl x \<Rightarrow> Inl x | Inr category \<Rightarrow>
        (let text = lower (str e t)
         in if category = PStr ''bug'' \<and>
               (re_search urgent_pattern text \<or> sentiment = PStr ''negative'')
            then Inr ''high''
            else if category \<in> {PStr ''bug'', PStr ''ux_issue''} \<and> sentiment = PStr ''negative''
            then Inr ''medium''
            else Inr ''low''))))"

text \<open>
  The category rule in the words of the specification: the four patterns in their priority
  order, the first one with an alternative occurring in the lower-cased text wins, and
  \<open>other\<close> is the default.
\<close>

fun first_match :: "(string \<times> string list) list \<Rightarrow> string \<Rightarrow> string" where
  "first_match [] t = ''other''"
| "first_match ((c, alts) # rest) t =
     (if \<exists>a \<in> set alts. \<exists>u v. t = u @ a @ v then c else first_match rest t)"

definition spec_category :: "string \<Rightarrow> string" where
  "spec_category text =
     first_match
       [(''bug'', [''bug'', ''error'', ''crash'', ''issue'', ''not working'', ''broken'',
                   ''fails'', ''failure'']),
        (''feature_request'', [''feature'', ''add'', ''can you make'', ''wishlist'',
                   ''would be nice'', ''please include'']),
        (''ux_issue'', [''slow'', ''bad ux'', ''confusing'', ''difficult'', ''hard to use'',
                   ''complicated'']),
        (''positive_feedback'', [''great'', ''love'', ''awesome'', ''happy'', ''excellent'',
                   ''amazing'', ''good''])]
       (lower text)"

section \<open>Frames\<close>

text \<open>\<open>mapE f xs\<close> applies \<open>f\<close> from left to right and stops at the first exception.\<close>

fun mapE :: "('a \<Rightarrow> exn + 'b) \<Rightarrow> 'a list \<Rightarrow> exn + 'b list" where
  "mapE f [] = Inr []"
| "mapE f (x # xs) =
     (case f x of
        Inl err \<Rightarrow> Inl err
      | Inr y \<Rightarrow> (case mapE f xs of Inl err \<Rightarrow> Inl err | Inr ys \<Rightarrow> Inr (y # ys)))"

text \<open>
  \<open>has_col c df\<close> is \<^verbatim>\<open>c in df.columns\<close>, \<open>col c df\<close> is \<^verbatim>\<open>df[c]\<close> (KeyError without the
  column), \<open>assign c vs df\<close> is \<^verbatim>\<open>df[c] = vs\<close>: an existing column is replaced in place, a
  new one is appended. A frame without rows is \<open>[]\<close>, whatever its columns: the source tests
  \<^verbatim>\<open>df.empty\<close> wherever the difference could show.
\<close>

definition has_col :: "string \<Rightarrow> frame \<Rightarrow> bool" where
  "has_col c df = list_all (\<lambda>r. map_of r c \<noteq> None) df"

definition col :: "string \<Rightarrow> frame \<Rightarrow> exn + pyval list" where
  "col c df = mapE (\<lambda>r. getitem r c) df"

definition assign :: "string \<Rightarrow> pyval list \<Rightarrow> frame \<Rightarrow> frame" where
  "assign c vs df = map (\<lambda>(r, v). AList.update c v r) (zip df vs)"

definition assign_all :: "string \<Rightarrow> pyval \<Rightarrow> frame \<Rightarrow> frame" where
  "assign_all c v df = assign c (replicate (length df) v) df"

text \<open>A column of labels (sentiment, category) read as strings, for grouping.\<close>

definition labels :: "string \<Rightarrow> frame \<Rightarrow> exn + string list" where
  "labels c df =
     (case col c df of
        Inl x \<Rightarrow> Inl x
      | Inr vs \<Rightarrow> mapE (\<lambda>v. case v of PStr s \<Rightarrow> Inr s | _ \<Rightarrow> Inl TypeError) vs)"

text \<open>
  \<^verbatim>\<open>pd.to_datetime(df['timestamp'], errors='coerce')\<close> followed by
  \<^verbatim>\<open>fillna(pd.Timestamp.now())\<close>: every cell becomes a time, NaT cells the current one.
\<close>

definition convert_timestamps :: "env \<Rightarrow> frame \<Rightarrow> exn + frame" where
  "convert_timestamps e df =
     (case col ''timestamp'' df of
        Inl x \<Rightarrow> Inl x
      | Inr ts \<Rightarrow>
          (case mapE (to_datetime e) ts of
             Inl x \<Rightarrow> Inl x
           | Inr parsed \<Rightarrow>
               Inr (assign ''timestamp''
                      (map (\<lambda>p. PTime (case p of None \<Rightarrow> now e | Some t \<Rightarrow> t)) parsed) df)))"

text \<open>\<^verbatim>\<open>pd.api.types.is_datetime64_any_dtype(df['timestamp'])\<close>: every cell is a time.\<close>

definition is_datetime_col :: "frame \<Rightarrow> bool" where
  "is_datetime_col df =
     list_all (\<lambda>r. case map_of r ''timestamp'' of Some (PTime t) \<Rightarrow> True | _ \<Rightarrow> False) df"

definition ensure_datetime :: "env \<Rightarrow> frame \<Rightarrow> exn + frame" where
  "ensure_datetime e df = (if is_datetime_col df then Inr df else convert_timestamps e df)"

text \<open>\<^verbatim>\<open>df['timestamp'].dt.date.astype(str)\<close>: the day key of every row.\<close>

definition day_column :: "frame \<Rightarrow> exn + string list" where
  "day_column df =
     (case col ''timestamp'' df of
        Inl x \<Rightarrow> Inl x
      | Inr ts \<Rightarrow>
          mapE (\<lambda>v. case v of PTime t \<Rightarrow> Inr (date_str t) | _ \<Rightarrow> Inl AttributeError) ts)"

text \<open>
  \<^verbatim>\<open>groupby(key).size()\<close>: one entry per distinct key, in ascending key order, with the number
  of rows that carry the key.
\<close>

definition groupby_size :: "string list \<Rightarrow> (string \<times> nat) list" where
  "groupby_size keys = map (\<lambda>k. (k, count_list keys k)) (sort (remdups keys))"

text \<open>
  \<^verbatim>\<open>groupby(['day', c]).size()\<close> pivoted on \<open>c\<close> with \<^verbatim>\<open>fillna(0)\<close>: one record per day, with
  one count for every label that occurs in the frame.
\<close>

definition pivot_counts :: "(string \<times> string) list \<Rightarrow> (string \<times> (string \<times> nat) list) list" where
  "pivot_counts pairs =
     map (\<lambda>d. (d, map (\<lambda>l. (l, count_list pairs (d, l))) (sort (remdups (map snd pairs)))))
         (sort (remdups (map fst pairs)))"

section \<open>Keyword extractor\<close>

definition is_word_char :: "char \<Rightarrow> bool" where
  "is_word_char c =
     ((CHR ''a'' \<le> c \<and> c \<le> CHR ''z'') \<or> (CHR ''A'' \<le> c \<and> c \<le> CHR ''Z'')
      \<or> (CHR ''0'' \<le> c \<and> c \<le> CHR ''9'') \<or> c = CHR ''_'')"

text \<open>
  \<^verbatim>\<open>re.findall(r'\b\w+\b', s)\<close>: the maximal runs of word characters of \<open>s\<close>, from left to
  right; \<open>cur\<close> is the run being read.
\<close>

fun findall_words :: "string \<Rightarrow> string \<Rightarrow> string list" where
  "findall_words cur [] = (if cur = [] then [] else [cur])"
| "findall_words cur (c # cs) =
     (if is_word_char c then findall_words (cur @ [c]) cs
      else (if cur = [] then [] else [cur]) @ findall_words [] cs)"

fun join :: "string \<Rightarrow> string list \<Rightarrow> string" where
  "join sep [] = []"
| "join sep [x] = x"
| "join sep (x # y # ys) = x @ sep @ join sep (y # ys)"

definition common_words :: "string list" where
  "common_words = [''the'', ''a'', ''an'', ''and'', ''or'', ''but'', ''is'', ''are'', ''was'', ''were'']"

text \<open>
  \<^verbatim>\<open>collections.Counter(words)\<close> keeps its keys in the order in which they are first met;
  \<^verbatim>\<open>most_common(n)\<close> is the first \<open>n\<close> entries of a stable sort by descending count.
\<close>

fun counter_add :: "(string \<times> nat) list \<Rightarrow> string \<Rightarrow> (string \<times> nat) list" where
  "counter_add [] w = [(w, 1)]"
| "counter_add ((k, n) # rest) w =
     (if k = w then (k, Suc n) # rest else (k, n) # counter_add rest w)"

definition Counter :: "string list \<Rightarrow> (string \<times> nat) list" where
  "Counter ws = foldl counter_add [] ws"

definition most_common :: "nat \<Rightarrow> (string \<times> nat) list \<Rightarrow> (string \<times> nat) list" where
  "most_common n c = take n (sort_key (\<lambda>(w, k). - int k) c)"

text \<open>The texts of a column as strings; a cell that is not a string makes the caller fail.\<close>

definition texts_of :: "pyval list \<Rightarrow> exn + string list" where
  "texts_of vs = mapE (\<lambda>v. case v of PStr s \<Rightarrow> Inr s | _ \<Rightarrow> Inl TypeError) vs"

definition frequency_keywords :: "string list \<Rightarrow> nat \<Rightarrow> string list" where
  "frequency_keywords texts top_n =
     (let all_text = join '' '' texts;
          words = findall_words [] (lower all_text);
          words = filter (\<lambda>word. word \<notin> set common_words \<and> length word > 2) words
      in map fst (most_common top_n (Counter words)))"

definition extract_keywords :: "env \<Rightarrow> pyval list \<Rightarrow> nat \<Rightarrow> exn + string list" where
  "extract_keywords e texts top_n =
     (if length texts < 3 then
        (case texts_of texts of
           Inl _ \<Rightarrow> Inr []
         | Inr ts \<Rightarrow> Inr (frequency_keywords ts top_n))
      else
        (case texts_of texts of
           Inl _ \<Rightarrow> Inr []
         | Inr ts \<Rightarrow> (case tfidf e ts top_n of Inl _ \<Rightarrow> Inr [] | Inr names \<Rightarrow> Inr names)))"

section \<open>Trend aggregator\<close>

text \<open>
  \<^verbatim>\<open>detect_trends\<close> returns the Python list \<^verbatim>\<open>[]\<close> when it has nothing to report and a dict
  of three record lists otherwise. It assigns to columns of the frame it is given, so the
  model returns the frame as well.
\<close>

datatype time_trends =
    TrendList "pyval list"
  | TrendDict (daily_count: "(string \<times> nat) list")
              (sentiment_trend: "(string \<times> (string \<times> nat) list) list")
              (category_trend: "(string \<times> (string \<times> nat) list) list")

definition detect_trends :: "env \<Rightarrow> frame \<Rightarrow> exn + frame \<times> time_trends" where
  "detect_trends e df =
     (if \<not> has_col ''timestamp'' df \<or> df = [] then Inr (df, TrendList [])
      else
        (case ensure_datetime e df of
           Inl _ \<Rightarrow> Inr (df, TrendList [])
         | Inr df1 \<Rightarrow>
             (case day_column df1 of
                Inl _ \<Rightarrow> Inr (df1, TrendList [])
              | Inr days \<Rightarrow>
                  (let df2 = assign ''day'' (map PStr days) df1
                   in (case labels ''sentiment'' df2 of
                         Inl _ \<Rightarrow> Inr (df2, TrendList [])
                       | Inr sents \<Rightarrow>
                           (case labels ''category'' df2 of
                              Inl _ \<Rightarrow> Inr (df2, TrendList [])
                            | Inr cats \<Rightarrow>
                                Inr (df2, TrendDict (groupby_size days)
                                            (pivot_counts (zip days sents))
                                            (pivot_counts (zip days cats)))))))))"

section \<open>Anomaly detector\<close>

text \<open>
  \<^verbatim>\<open>Series.mean()\<close> and \<^verbatim>\<open>Series.std()\<close> (the sample standard deviation, \<^verbatim>\<open>ddof=1\<close>) of a
  series of counts, over the reals.
\<close>

definition mean :: "nat list \<Rightarrow> real" where
  "mean cs = real (sum_list cs) / real (length cs)"

definition std :: "nat list \<Rightarrow> real" where
  "std cs = sqrt ((\<Sum>c\<leftarrow>cs. (real c - mean cs)\<^sup>2) / (real (length cs) - 1))"

text \<open>\<^verbatim>\<open>counts[counts > m + 2 * s]\<close>\<close>

definition above :: "real \<Rightarrow> real \<Rightarrow> (string \<times> nat) list \<Rightarrow> (string \<times> nat) list" where
  "above m s counts = filter (\<lambda>(d, c). real c > m + 2 * s) counts"

datatype anomalies =
    NoAnomalies
  | Anomalies (volume_anomalies: "(string \<times> nat) list")
              (negative_sentiment_anomalies: "(string \<times> nat) list")

definition negative_rows :: "frame \<Rightarrow> frame" where
  "negative_rows df = filter (\<lambda>r. map_of r ''sentiment'' = Some (PStr ''negative'')) df"

text \<open>The overall pass: mean, standard deviation and the days above the threshold.\<close>

definition spikes :: "(string \<times> nat) list \<Rightarrow> (string \<times> nat) list" where
  "spikes day_counts =
     (let mean_all = mean (map snd day_counts);
          std_all = (if length day_counts > 1 then std (map snd day_counts) else 0)
      in above mean_all std_all day_counts)"

text \<open>The pass over the rows with negative sentiment.\<close>

definition negative_spikes :: "frame \<Rightarrow> exn + (string \<times> nat) list" where
  "negative_spikes df =
     (case col ''sentiment'' df of
        Inl x \<Rightarrow> Inl x
      | Inr _ \<Rightarrow>
          (let negative_df = negative_rows df
           in if negative_df \<noteq> [] then
                (case day_column negative_df of
                   Inl x \<Rightarrow> Inl x
                 | Inr ndays \<Rightarrow>
                     (let negative_counts = groupby_size ndays;
                          negative_mean = (if negative_counts \<noteq> []
                                           then mean (map snd negative_counts) else 0);
                          negative_std = (if length negative_counts > 1
                                          then std (map snd negative_counts) else 0)
                      in Inr (if negative_counts \<noteq> []
                              then above negative_mean negative_std negative_counts
                              else [])))
              else Inr []))"

definition detect_anomalies :: "env \<Rightarrow> frame \<Rightarrow> exn + frame \<times> anomalies" where
  "detect_anomalies e df =
     (if \<not> has_col ''timestamp'' df \<or> df = [] then Inr (df, NoAnomalies)
      else
        (case ensure_datetime e df of
           Inl _ \<Rightarrow> Inr (df, NoAnomalies)
         | Inr df1 \<Rightarrow>
             (case day_column df1 of
                Inl _ \<Rightarrow> Inr (df1, NoAnomalies)
              | Inr days \<Rightarrow>
                  (let day_counts = groupby_size days
                   in if length day_counts < 3 then Inr (df1, NoAnomalies)
                      else
                        (case negative_spikes df1 of
                           Inl _ \<Rightarrow> Inr (df1, NoAnomalies)
                         | Inr negative_anomalies \<Rightarrow>
                             Inr (df1, Anomalies (spikes day_counts) negative_anomalies))))))"

section \<open>Analysis orchestrator\<close>

datatype analysis_result = AnalysisResult
  (feedback_data: "row list")
  (sentiment_summary: "(string \<times> nat) list")
  (top_issues: "(string \<times> nat) list")
  (trend_keywords: "string list")
  (time_trends: time_trends)
  (anomalies: anomalies)

definition create_empty_analysis_result :: analysis_result where
  "create_empty_analysis_result = AnalysisResult [] [] [] [] (TrendList []) NoAnomalies"

text \<open>
  \<^verbatim>\<open>Series.value_counts().to_dict()\<close>: the labels with their counts, most frequent first. A
  Python dict compares by keys and values; the order among equal counts is a convention here.
\<close>

definition value_counts :: "string list \<Rightarrow> (string \<times> nat) list" where
  "value_counts xs = most_common (length xs) (Counter xs)"

definition iso_cell :: "pyval \<Rightarrow> exn + pyval" where
  "iso_cell x =
     (case x of
        PTime t \<Rightarrow> Inr (PStr (isoformat t))
      | PNone \<Rightarrow> Inr PNone
      | PNaN \<Rightarrow> Inr PNone
      | _ \<Rightarrow> Inl AttributeError)"

definition dataframe_to_serializable :: "frame \<Rightarrow> exn + row list" where
  "dataframe_to_serializable df =
     (if df = [] then Inr []
      else if has_col ''timestamp'' df then
        (case col ''timestamp'' df of
           Inl x \<Rightarrow> Inl x
         | Inr ts \<Rightarrow>
             (case mapE iso_cell ts of
                Inl x \<Rightarrow> Inl x
              | Inr vs \<Rightarrow> Inr (assign ''timestamp'' vs df)))
      else Inr df)"

definition convert_timestamps_in_list :: "pyval list \<Rightarrow> pyval list" where
  "convert_timestamps_in_list data_list =
     map (\<lambda>item. case item of
                   PDict kvs \<Rightarrow>
                     PDict (map (\<lambda>(k, v). (k, case v of PTime t \<Rightarrow> PStr (isoformat t) | _ \<Rightarrow> v)) kvs)
                 | _ \<Rightarrow> item)
         data_list"

text \<open>
  The records of a trend dict hold day strings and counts only, so the serialisation copies
  them; a list goes through \<^verbatim>\<open>convert_timestamps_in_list\<close>, the empty one is returned as
  \<^verbatim>\<open>[]\<close> at once.
\<close>

definition make_time_trends_serializable :: "time_trends \<Rightarrow> time_trends" where
  "make_time_trends_serializable t =
     (case t of
        TrendList xs \<Rightarrow> (if xs = [] then TrendList [] else TrendList (convert_timestamps_in_list xs))
      | TrendDict d s c \<Rightarrow> TrendDict d s c)"

text \<open>The keys of an anomaly dict are day strings and its values counts: both are copied.\<close>

definition make_anomalies_serializable :: "anomalies \<Rightarrow> anomalies" where
  "make_anomalies_serializable a =
     (case a of NoAnomalies \<Rightarrow> NoAnomalies | Anomalies v n \<Rightarrow> Anomalies v n)"

text \<open>The body of the \<^verbatim>\<open>try\<close> block of \<^verbatim>\<open>decide\<close>.\<close>

definition decide_body :: "env \<Rightarrow> frame \<Rightarrow> exn + analysis_result" where
  "decide_body e df =
     (case col ''text'' df of Inl x \<Rightarrow> Inl x | Inr texts \<Rightarrow>
      (let df1 = assign ''sentiment'' (map (\<lambda>t. PStr (analyze_sentiment e t)) texts) df
       in (case col ''text'' df1 of Inl x \<Rightarrow> Inl x | Inr texts1 \<Rightarrow>
      (let df2 = assign ''category'' (map (\<lambda>t. PStr (categorize_feedback e t)) texts1) df1
       in (case mapE (determine_urgency e) df2 of Inl x \<Rightarrow> Inl x | Inr urgencies \<Rightarrow>
      (let df3 = assign ''urgency'' (map PStr urgencies) df2
       in (case col ''text'' df3 of Inl x \<Rightarrow> Inl x | Inr texts3 \<Rightarrow>
      (let keywords = (case extract_keywords e texts3 10 of Inl _ \<Rightarrow> [] | Inr ks \<Rightarrow> ks);
           (df4, trends) = (case detect_trends e df3 of
                              Inl _ \<Rightarrow> (df3, TrendList []) | Inr p \<Rightarrow> p);
           (df5, anoms) = (case detect_anomalies e df4 of
                             Inl _ \<Rightarrow> (df4, NoAnomalies) | Inr p \<Rightarrow> p)
       in (case dataframe_to_serializable df5 of Inl x \<Rightarrow> Inl x | Inr records \<Rightarrow>
          (case labels ''sentiment'' df5 of Inl x \<Rightarrow> Inl x | Inr sents \<Rightarrow>
          (case labels ''category'' df5 of Inl x \<Rightarrow> Inl x | Inr cats \<Rightarrow>
             Inr (AnalysisResult records (value_counts sents) (value_counts cats) keywords
                    (make_time_trends_serializable trends)
                    (make_anomalies_serializable anoms)))))))))))))"

definition decide :: "env \<Rightarrow> frame \<Rightarrow> exn + analysis_result" where
  "decide e df =
     (if df = [] then Inr create_empty_analysis_result
      else (case decide_body e df of
              Inl _ \<Rightarrow> Inr create_empty_analysis_result
            | Inr r \<Rightarrow> Inr r))"

definition orient_body :: "env \<Rightarrow> pyval \<Rightarrow> exn + frame" where
  "orient_body e data =
     (case DataFrame e data of Inl x \<Rightarrow> Inl x | Inr df0 \<Rightarrow>
      (let df1 = (if \<not> has_col ''text'' df0
                  then assign_all ''text'' (PStr ''No text available'') df0 else df0);
           df2 = (if \<not> has_col ''timestamp'' df1
                  then assign_all ''timestamp'' (PStr (strftime (now e))) df1 else df1);
           df3 = (if \<not> has_col ''platform'' df2
                  then assign_all ''platform'' (PStr ''Unknown'') df2 else df2)
       in (case col ''text'' df3 of Inl x \<Rightarrow> Inl x | Inr texts \<Rightarrow>
           (let df4 = assign ''text'' (map (\<lambda>v. PStr (str e v)) texts) df3
            in (case convert_timestamps e df4 of
                  Inl _ \<Rightarrow> Inr (assign_all ''timestamp'' (PTime (now e)) df4)
                | Inr df5 \<Rightarrow> Inr df5)))))"

definition orient :: "env \<Rightarrow> pyval \<Rightarrow> exn + frame" where
  "orient e data =
     (if \<not> truthy data then Inr []
      else (case orient_body e data of Inl _ \<Rightarrow> Inr [] | Inr df \<Rightarrow> Inr df))"











section \<open>A concrete environment\<close>

text \<open>
  One environment on which the definitions can be evaluated: no NLP library (the word-list
  sentiment), a vectoriser that raises as scikit-learn does on an empty vocabulary, a
  \<^verbatim>\<open>to_datetime\<close> that keeps a time, reads a string of the form \<^verbatim>\<open>YYYY-MM-DD HH:MM:SS\<close> and
  gives NaT otherwise, a fixed clock, and the DataFrame constructor on a list of records
  (columns in the order in which the keys are first met, NaN where a record lacks a key).
\<close>

definition digit_val :: "char \<Rightarrow> nat option" where
  "digit_val c =
     (if CHR ''0'' \<le> c \<and> c \<le> CHR ''9'' then Some (of_char c - 48) else None)"

fun number :: "nat \<Rightarrow> string \<Rightarrow> nat option" where
  "number acc [] = Some acc"
| "number acc (c # cs) =
     (case digit_val c of None \<Rightarrow> None | Some d \<Rightarrow> number (10 * acc + d) cs)"

definition parse_datetime :: "string \<Rightarrow> datetime option" where
  "parse_datetime s =
     (if length s = 19 \<and> s ! 4 = CHR ''-'' \<and> s ! 7 = CHR ''-'' \<and> s ! 10 = CHR '' ''
         \<and> s ! 13 = CHR '':'' \<and> s ! 16 = CHR '':''
      then
        (case (number 0 (take 4 s), number 0 (take 2 (drop 5 s)), number 0 (take 2 (drop 8 s)),
               number 0 (take 2 (drop 11 s)), number 0 (take 2 (drop 14 s)),
               number 0 (take 2 (drop 17 s))) of
           (Some y, Some m, Some d, Some h, Some mi, Some sec) \<Rightarrow> Some (DateTime y m d h mi sec)
         | _ \<Rightarrow> None)
      else None)"

definition to_datetime0 :: "pyval \<Rightarrow> exn + datetime option" where
  "to_datetime0 v =
     (case v of PTime t \<Rightarrow> Inr (Some t) | PStr s \<Rightarrow> Inr (parse_datetime s) | _ \<Rightarrow> Inr None)"

definition first_seen :: "string list \<Rightarrow> string list" where
  "first_seen xs = rev (remdups (rev xs))"

definition DataFrame_records :: "pyval \<Rightarrow> exn + frame" where
  "DataFrame_records data =
     (case data of
        PList items \<Rightarrow>
          (case mapE (\<lambda>v. case v of PDict kvs \<Rightarrow> Inr kvs | _ \<Rightarrow> Inl ValueError) items of
             Inl x \<Rightarrow> Inl x
           | Inr recs \<Rightarrow>
               (let cols = first_seen (concat (map (map fst) recs))
                in Inr (map (\<lambda>r. map (\<lambda>c. (c, case map_of r c of None \<Rightarrow> PNaN | Some v \<Rightarrow> v))
                                     cols) recs)))
      | _ \<Rightarrow> Inl ValueError)"

definition repr0 :: "pyval \<Rightarrow> string" where
  "repr0 v =
     (case v of
        PNone \<Rightarrow> ''None''
      | PNaN \<Rightarrow> ''nan''
      | PBool b \<Rightarrow> (if b then ''True'' else ''False'')
      | PStr s \<Rightarrow> s
      | PTime t \<Rightarrow> strftime t
      | _ \<Rightarrow> ''?'')"

definition env0 :: env where
  "env0 = Env None (\<lambda>texts top_n. Inl ValueError) to_datetime0 (DateTime 2025 1 15 12 0 0)
            DataFrame_records repr0"

text \<open>Whether a \<^verbatim>\<open>time_trends\<close> value is a mapping (a Python dict) rather than a list.\<close>

definition is_mapping :: "time_trends \<Rightarrow> bool" where
  "is_mapping t = (case t of TrendDict d s c \<Rightarrow> True | TrendList xs \<Rightarrow> False)"


text \<open>
  A batch of two records, the second with a timestamp that \<^verbatim>\<open>to_datetime\<close> cannot read, the
  frame that \<^verbatim>\<open>orient\<close> makes of it under the concrete environment, and a labelled frame whose
  timestamps are still strings.
\<close>

definition sample_batch :: pyval where
  "sample_batch =
     PList [PDict [(''text'', PStr ''Love it''), (''timestamp'', PStr ''2025-01-10 08:30:00'')],
            PDict [(''text'', PStr ''App crash, bad''), (''timestamp'', PStr ''soon'')]]"

definition sample_frame :: frame where
  "sample_frame =
     [[(''text'', PStr ''Love it''), (''timestamp'', PTime (DateTime 2025 1 10 8 30 0)),
       (''platform'', PStr ''Unknown'')],
      [(''text'', PStr ''App crash, bad''), (''timestamp'', PTime (DateTime 2025 1 15 12 0 0)),
       (''platform'', PStr ''Unknown'')]]"

definition unparsed_frame :: frame where
  "unparsed_frame =
     [[(''text'', PStr ''ok''), (''timestamp'', PStr ''2025-01-10 08:30:00''),
       (''sentiment'', PStr ''neutral''), (''category'', PStr ''other'')],
      [(''text'', PStr ''hm''), (''timestamp'', PStr ''soon''),
       (''sentiment'', PStr ''neutral''), (''category'', PStr ''other'')]]"

text \<open>
  Two frames for the anomaly detector: thirty rows over five days of March 2025, with 2, 3,
  2, 3 and 20 rows a day, and four rows over three days whose negative rows fall on one day.
\<close>

definition spike_days :: "nat list" where
  "spike_days = replicate 2 1 @ replicate 3 2 @ replicate 2 3 @ replicate 3 4 @ replicate 20 5"

definition spike_frame :: frame where
  "spike_frame =
     map (\<lambda>d. [(''text'', PStr ''ok''), (''timestamp'', PTime (DateTime 2025 3 d 9 0 0)),
               (''sentiment'', PStr ''neutral'')]) spike_days"


section \<open>Properties of the text classifier\<close>

lemma startswith_iff: "startswith t p \<longleftrightarrow> (\<exists>v. t = p @ v)"
  by (induction t p rule: startswith.induct) auto

lemma contains_iff: "contains t p \<longleftrightarrow> (\<exists>u v. t = u @ p @ v)"
proof (induction t)
  case Nil
  then show ?case by auto
next
  case (Cons c cs)
  show ?case
  proof
    assume "contains (c # cs) p"
    then consider "startswith (c # cs) p" | "contains cs p" by auto
    then show "\<exists>u v. c # cs = u @ p @ v"
    proof cases
      case 1
      then obtain v where "c # cs = p @ v" by (auto simp: startswith_iff)
      then have "c # cs = [] @ p @ v" by simp
      then show ?thesis by blast
    next
      case 2
      then obtain u v where "cs = u @ p @ v" using Cons.IH by blast
      then have "c # cs = (c # u) @ p @ v" by simp
      then show ?thesis by blast
    qed
  next
    assume "\<exists>u v. c # cs = u @ p @ v"
    then obtain u v where uv: "c # cs = u @ p @ v" by blast
    show "contains (c # cs) p"
    proof (cases u)
      case Nil
      with uv have "startswith (c # cs) p" by (auto simp: startswith_iff)
      then show ?thesis by simp
    next
      case (Cons a u')
      with uv have "cs = u' @ p @ v" by simp
      then have "contains cs p" using Cons.IH by blast
      then show ?thesis by simp
    qed
  qed
qed

lemma re_search_iff: "re_search alts t \<longleftrightarrow> (\<exists>a \<in> set alts. \<exists>u v. t = u @ a @ v)"
  by (simp add: re_search_def list_ex_iff contains_iff)

text \<open>
  Claim C4. For every text the category classifier returns exactly one of the five values
  bug, feature_request, ux_issue, positive_feedback and other; the value is the one chosen by
  the first pattern, in the priority order bug, feature_request, ux_issue,
  positive_feedback, that has an alternative occurring in the lower-cased text
  (\<open>spec_category\<close>), and other when none has. In particular a text in which both
  \<open>bug\<close> and \<open>love\<close> occur, in any letter case, is categorised as bug.
\<close>

theorem categorize_feedback_priority:
  "categorize_feedback e text \<in> {''bug'', ''feature_request'', ''ux_issue'', ''positive_feedback'', ''other''}
   \<and> categorize_feedback e text = spec_category (str e text)
   \<and> ((\<exists>u v. lower (str e text) = u @ ''bug'' @ v) \<and> (\<exists>u v. lower (str e text) = u @ ''love'' @ v)
        \<longrightarrow> categorize_feedback e text = ''bug'')"
proof (intro conjI impI)
  show "categorize_feedback e text \<in> {''bug'', ''feature_request'', ''ux_issue'', ''positive_feedback'', ''other''}"
    by (simp add: categorize_feedback_def Let_def)
  show "categorize_feedback e text = spec_category (str e text)"
    unfolding categorize_feedback_def spec_category_def Let_def first_match.simps re_search_iff
      bug_pattern_def feature_pattern_def ux_pattern_def praise_pattern_def
    by (rule refl)
  assume "(\<exists>u v. lower (str e text) = u @ ''bug'' @ v) \<and> (\<exists>u v. lower (str e text) = u @ ''love'' @ v)"
  then have "re_search bug_pattern (lower (str e text))"
    unfolding re_search_iff bug_pattern_def by simp
  then show "categorize_feedback e text = ''bug''"
    by (simp add: categorize_feedback_def Let_def)
qed

theorem categorize_feedback_priority_witness:
  "(\<exists>u v. lower ''I LOVE it, but found a Bug'' = u @ ''bug'' @ v)
   \<and> (\<exists>u v. lower ''I LOVE it, but found a Bug'' = u @ ''love'' @ v)
   \<and> categorize_feedback env0 (PStr ''I LOVE it, but found a Bug'') = ''bug''
   \<and> spec_category ''I LOVE it, but found a Bug'' = ''bug''"
proof -
  have "contains (lower ''I LOVE it, but found a Bug'') ''bug''" by code_simp
  then have a: "\<exists>u v. lower ''I LOVE it, but found a Bug'' = u @ ''bug'' @ v"
    by (simp only: contains_iff)
  have "contains (lower ''I LOVE it, but found a Bug'') ''love''" by code_simp
  then have b: "\<exists>u v. lower ''I LOVE it, but found a Bug'' = u @ ''love'' @ v"
    by (simp only: contains_iff)
  have s: "str env0 (PStr ''I LOVE it, but found a Bug'') = ''I LOVE it, but found a Bug''"
    by (simp add: str_def)
  note cf = categorize_feedback_priority [of env0 "PStr ''I LOVE it, but found a Bug''", unfolded s]
  note c = cf [THEN conjunct2, THEN conjunct2, THEN mp, OF conjI [OF a b]]
  note d = cf [THEN conjunct2, THEN conjunct1]
  note f = trans [OF d [symmetric] c]
  show ?thesis by (intro conjI) (rule a, rule b, rule c, rule f)
qed

text \<open>
  Claim C5. For a row with a text, a sentiment and a category, urgency is high exactly when
  the category is bug and either one of crash, urgent, critical, emergency, severe, blocked
  occurs in the lower-cased text or the sentiment is negative; it is medium exactly when the
  category is bug or ux_issue, the sentiment is negative and high did not apply; it is low
  otherwise. So a bug with negative sentiment is high whatever its text.
\<close>

theorem determine_urgency_rule:
  fixes e :: env and t :: pyval
  assumes "map_of row ''text'' = Some t"
    and "map_of row ''sentiment'' = Some (PStr s)"
    and "map_of row ''category'' = Some (PStr c)"
  defines "keyword \<equiv> (\<exists>a \<in> {''crash'', ''urgent'', ''critical'', ''emergency'', ''severe'', ''blocked''}.
                        \<exists>u v. lower (str e t) = u @ a @ v)"
  shows "(determine_urgency e row = Inr ''high''
            \<longleftrightarrow> c = ''bug'' \<and> (keyword \<or> s = ''negative''))
       \<and> (determine_urgency e row = Inr ''medium''
            \<longleftrightarrow> (c = ''bug'' \<or> c = ''ux_issue'') \<and> s = ''negative''
                \<and> \<not> (c = ''bug'' \<and> (keyword \<or> s = ''negative'')))
       \<and> (determine_urgency e row = Inr ''low''
            \<longleftrightarrow> \<not> (c = ''bug'' \<and> (keyword \<or> s = ''negative''))
                \<and> \<not> ((c = ''bug'' \<or> c = ''ux_issue'') \<and> s = ''negative''))
       \<and> (c = ''bug'' \<and> s = ''negative'' \<longrightarrow> determine_urgency e row = Inr ''high'')"
proof -
  have k: "re_search urgent_pattern (lower (str e t)) = keyword"
    unfolding re_search_iff urgent_pattern_def keyword_def by simp
  have d: "determine_urgency e row =
      (if c = ''bug'' \<and> (keyword \<or> s = ''negative'') then Inr ''high''
       else if (c = ''bug'' \<or> c = ''ux_issue'') \<and> s = ''negative'' then Inr ''medium''
       else Inr ''low'')"
    using assms(1-3) by (simp add: determine_urgency_def getitem_def Let_def k)
  have hm: "(Inr ''high'' :: exn + string) \<noteq> Inr ''medium''"
    and hl: "(Inr ''high'' :: exn + string) \<noteq> Inr ''low''"
    and ml: "(Inr ''medium'' :: exn + string) \<noteq> Inr ''low''"
    by simp_all
  define H where "H \<longleftrightarrow> c = ''bug'' \<and> (keyword \<or> s = ''negative'')"
  define M where "M \<longleftrightarrow> c = ''bug'' \<or> c = ''ux_issue''"
  define N where "N \<longleftrightarrow> s = ''negative''"
  have bn: "c = ''bug'' \<and> s = ''negative'' \<longrightarrow> H" by (simp add: H_def)
  have d': "determine_urgency e row =
      (if H then Inr ''high'' else if M \<and> N then Inr ''medium'' else Inr ''low'')"
    unfolding d H_def M_def N_def by (rule refl)
  have "(determine_urgency e row = Inr ''high'' \<longleftrightarrow> H)
       \<and> (determine_urgency e row = Inr ''medium'' \<longleftrightarrow> M \<and> N \<and> \<not> H)
       \<and> (determine_urgency e row = Inr ''low'' \<longleftrightarrow> \<not> H \<and> \<not> (M \<and> N))
       \<and> (c = ''bug'' \<and> s = ''negative'' \<longrightarrow> determine_urgency e row = Inr ''high'')"
    using bn hm hl ml unfolding d' by (cases H; cases M; cases N) simp_all
  then show ?thesis unfolding H_def M_def N_def .
qed

theorem determine_urgency_rule_witness:
  "map_of [(''text'', PStr ''minor typo''), (''sentiment'', PStr ''negative''), (''category'', PStr ''bug'')] ''text''
     = Some (PStr ''minor typo'')
   \<and> map_of [(''text'', PStr ''minor typo''), (''sentiment'', PStr ''negative''), (''category'', PStr ''bug'')] ''sentiment''
     = Some (PStr ''negative'')
   \<and> map_of [(''text'', PStr ''minor typo''), (''sentiment'', PStr ''negative''), (''category'', PStr ''bug'')] ''category''
     = Some (PStr ''bug'')
   \<and> determine_urgency env0
        [(''text'', PStr ''minor typo''), (''sentiment'', PStr ''negative''), (''category'', PStr ''bug'')]
     = Inr ''high''"
proof -
  let ?row = "[(''text'', PStr ''minor typo''), (''sentiment'', PStr ''negative''), (''category'', PStr ''bug'')]"
  have a: "map_of ?row ''text'' = Some (PStr ''minor typo'')" by simp
  have b: "map_of ?row ''sentiment'' = Some (PStr ''negative'')" by simp
  have c: "map_of ?row ''category'' = Some (PStr ''bug'')" by simp
  note r = determine_urgency_rule [OF a b c, of env0]
  note h = r [THEN conjunct2, THEN conjunct2, THEN conjunct2, THEN mp, OF conjI [OF refl refl]]
  show ?thesis by (intro conjI) (rule a, rule b, rule c, rule h)
qed

section \<open>Properties of the orchestrator\<close>








text \<open>
  Claim C2, as the code has it. A falsy batch, or one on which the orientation fails, is
  oriented to the empty frame, and \<^verbatim>\<open>decide\<close> on the empty frame returns the canonical empty
  result: empty lists for feedback_data and trend_keywords, empty mappings for
  sentiment_summary, top_issues and anomalies, and the empty list \<^verbatim>\<open>[]\<close> for time_trends.
\<close>

theorem empty_batch_result:
  "(\<not> truthy batch \<or> (\<exists>x. orient_body e batch = Inl x)
      \<longrightarrow> orient e batch = Inr [])
   \<and> decide e [] = Inr create_empty_analysis_result
   \<and> feedback_data create_empty_analysis_result = []
   \<and> sentiment_summary create_empty_analysis_result = []
   \<and> top_issues create_empty_analysis_result = []
   \<and> trend_keywords create_empty_analysis_result = []
   \<and> time_trends create_empty_analysis_result = TrendList []
   \<and> anomalies create_empty_analysis_result = NoAnomalies"
  by (auto simp: orient_def decide_def create_empty_analysis_result_def)

theorem empty_batch_result_witness:
  "\<not> truthy (PList [])
   \<and> orient env0 (PList []) = Inr []
   \<and> decide env0 [] = Inr create_empty_analysis_result"
proof -
  have t: "\<not> truthy (PList [])" by simp
  note r = empty_batch_result [of "PList []" env0]
  note a = r [THEN conjunct1, THEN mp, OF disjI1 [OF t]]
  note b = r [THEN conjunct2, THEN conjunct1]
  show ?thesis by (intro conjI) (rule t, rule a, rule b)
qed

text \<open>
  Claim C2 as stated fails: in the canonical empty result time_trends is the list \<^verbatim>\<open>[]\<close>,
  not a mapping.
\<close>

theorem empty_time_trends_counterexample:
  "decide env0 [] = Inr create_empty_analysis_result
   \<and> time_trends create_empty_analysis_result = TrendList []
   \<and> \<not> is_mapping (time_trends create_empty_analysis_result)"
  by (simp add: decide_def create_empty_analysis_result_def is_mapping_def)

section \<open>Frames and the stages of the analysis\<close>

lemma mapE_map: "(\<And>x. x \<in> set xs \<Longrightarrow> f x = Inr (g x)) \<Longrightarrow> mapE f xs = Inr (map g xs)"
  by (induction xs) simp_all

lemma mapE_Inr_iff: "mapE f xs = Inr ys \<longleftrightarrow> list_all2 (\<lambda>x y. f x = Inr y) xs ys"
proof (induction xs arbitrary: ys)
  case Nil
  then show ?case by auto
next
  case (Cons x xs)
  show ?case
  proof (cases "f x")
    case (Inl a)
    then show ?thesis by (auto simp: list_all2_Cons1)
  next
    case (Inr y)
    show ?thesis
    proof (cases "mapE f xs")
      case (Inl a)
      with Inr Cons.IH show ?thesis by (auto simp: list_all2_Cons1)
    next
      case r: (Inr zs)
      with Inr Cons.IH show ?thesis by (auto simp: list_all2_Cons1)
    qed
  qed
qed

lemma mapE_length: "mapE f xs = Inr ys \<Longrightarrow> length ys = length xs"
  by (simp add: mapE_Inr_iff list_all2_lengthD)

lemma col_length: "col c df = Inr vs \<Longrightarrow> length vs = length df"
  by (simp add: col_def mapE_length)

lemma col_Nil [simp]: "col c [] = Inr []"
  by (simp add: col_def)

lemma col_Cons:
  "col c (r # df) =
     (case map_of r c of None \<Rightarrow> Inl KeyError
      | Some v \<Rightarrow> (case col c df of Inl x \<Rightarrow> Inl x | Inr vs \<Rightarrow> Inr (v # vs)))"
  by (simp add: col_def getitem_def split: option.split)

lemma assign_Nil [simp]: "assign c vs [] = []" "assign c [] df = []"
  by (simp_all add: assign_def)

lemma assign_Cons [simp]: "assign c (v # vs) (r # df) = AList.update c v r # assign c vs df"
  by (simp add: assign_def)

lemma length_assign: "length vs = length df \<Longrightarrow> length (assign c vs df) = length df"
  by (simp add: assign_def)

lemma col_assign_same: "length vs = length df \<Longrightarrow> col c (assign c vs df) = Inr vs"
proof (induction df arbitrary: vs)
  case Nil
  then show ?case by simp
next
  case (Cons r df)
  then obtain v vs' where vs: "vs = v # vs'" "length vs' = length df"
    by (cases vs) auto
  with Cons.IH [of vs'] show ?case
    by (simp add: col_Cons update_conv')
qed

lemma col_assign_other:
  "c' \<noteq> c \<Longrightarrow> length vs = length df \<Longrightarrow> col c' (assign c vs df) = col c' df"
proof (induction df arbitrary: vs)
  case Nil
  then show ?case by simp
next
  case (Cons r df)
  then obtain v vs' where vs: "vs = v # vs'" "length vs' = length df"
    by (cases vs) auto
  with Cons.IH [of vs'] Cons.prems(1) show ?case
    by (simp add: col_Cons update_conv' split: option.split)
qed

lemma has_col_iff: "has_col c df \<longleftrightarrow> (\<exists>vs. col c df = Inr vs)"
proof (induction df)
  case Nil
  then show ?case by (simp add: has_col_def)
next
  case (Cons r df)
  then show ?case
    by (auto simp: has_col_def col_Cons split: option.splits sum.splits)
qed

lemma is_datetime_col_iff: "is_datetime_col df \<longleftrightarrow> (\<exists>ts. col ''timestamp'' df = Inr (map PTime ts))"
proof (induction df)
  case Nil
  then show ?case by (simp add: is_datetime_col_def)
next
  case (Cons r df)
  show ?case
  proof
    assume a: "is_datetime_col (r # df)"
    then obtain t where t: "map_of r ''timestamp'' = Some (PTime t)"
      by (auto simp: is_datetime_col_def split: option.splits pyval.splits)
    from a have "is_datetime_col df" by (simp add: is_datetime_col_def)
    with Cons.IH obtain ts where "col ''timestamp'' df = Inr (map PTime ts)" by blast
    with t have "col ''timestamp'' (r # df) = Inr (map PTime (t # ts))"
      by (simp add: col_Cons)
    then show "\<exists>ts. col ''timestamp'' (r # df) = Inr (map PTime ts)" by blast
  next
    assume "\<exists>ts. col ''timestamp'' (r # df) = Inr (map PTime ts)"
    then obtain ts where c: "col ''timestamp'' (r # df) = Inr (map PTime ts)" by blast
    then obtain v vs where v: "map_of r ''timestamp'' = Some v" "col ''timestamp'' df = Inr vs"
        "map PTime ts = v # vs"
      by (auto simp: col_Cons split: option.splits sum.splits)
    then obtain t ts' where "ts = t # ts'" "v = PTime t" "vs = map PTime ts'"
      by (cases ts) auto
    with v Cons.IH show "is_datetime_col (r # df)"
      by (auto simp: is_datetime_col_def)
  qed
qed

lemma day_column_times:
  "col ''timestamp'' df = Inr (map PTime ts) \<Longrightarrow> day_column df = Inr (map date_str ts)"
proof -
  assume c: "col ''timestamp'' df = Inr (map PTime ts)"
  have "mapE (\<lambda>v. case v of PTime t \<Rightarrow> Inr (date_str t) | _ \<Rightarrow> Inl AttributeError) (map PTime ts)
          = Inr (map date_str ts)"
    by (induction ts) simp_all
  with c show ?thesis by (simp add: day_column_def)
qed

lemma labels_strs:
  "col c df = Inr (map PStr ss) \<Longrightarrow> labels c df = Inr ss"
proof -
  assume c: "col c df = Inr (map PStr ss)"
  have "mapE (\<lambda>v. case v of PStr s \<Rightarrow> Inr s | _ \<Rightarrow> Inl TypeError) (map PStr ss) = Inr ss"
    by (induction ss) simp_all
  with c show ?thesis by (simp add: labels_def)
qed

lemma col_filter:
  "col a df = Inr xs \<Longrightarrow> col b df = Inr ys \<Longrightarrow>
   col b (filter (\<lambda>r. map_of r a = Some x) df)
     = Inr (map snd (filter (\<lambda>(x', y). x' = x) (zip xs ys)))"
proof (induction df arbitrary: xs ys)
  case Nil
  then show ?case by simp
next
  case (Cons r df)
  from Cons.prems(1) obtain x0 xs' where x: "map_of r a = Some x0" "col a df = Inr xs'" "xs = x0 # xs'"
    by (auto simp: col_Cons split: option.splits sum.splits)
  from Cons.prems(2) obtain y0 ys' where y: "map_of r b = Some y0" "col b df = Inr ys'" "ys = y0 # ys'"
    by (auto simp: col_Cons split: option.splits sum.splits)
  from Cons.IH [OF x(2) y(2)] x y show ?case
    by (simp add: col_Cons)
qed

lemma determine_urgency_total:
  "has_col ''text'' df \<Longrightarrow> has_col ''sentiment'' df \<Longrightarrow> has_col ''category'' df \<Longrightarrow>
   \<exists>urgs. mapE (determine_urgency e) df = Inr urgs"
proof (induction df)
  case Nil
  then show ?case by simp
next
  case (Cons r df)
  then obtain urgs where u: "mapE (determine_urgency e) df = Inr urgs"
    by (auto simp: has_col_def)
  from Cons.prems obtain t s c where
    "map_of r ''text'' = Some t" "map_of r ''sentiment'' = Some s" "map_of r ''category'' = Some c"
    by (auto simp: has_col_def)
  then have "\<exists>u0. determine_urgency e r = Inr u0"
    by (simp add: determine_urgency_def getitem_def Let_def)
  then obtain u0 where "determine_urgency e r = Inr u0" ..
  with u show ?case by simp
qed

lemma iso_cells: "mapE iso_cell (map PTime ts) = Inr (map (\<lambda>t. PStr (isoformat t)) ts)"
  by (induction ts) (simp_all add: iso_cell_def)

lemma negative_spikes_cols:
  assumes s: "col ''sentiment'' df = Inr (map PStr sents)"
    and t: "col ''timestamp'' df = Inr (map PTime ts)"
  shows "negative_spikes df =
     Inr (let ndays = map snd (filter (\<lambda>(s, d). s = ''negative'') (zip sents (map date_str ts)))
          in if ndays \<noteq> [] then spikes (groupby_size ndays) else [])"
proof -
  let ?nts = "map snd (filter (\<lambda>(x', y). x' = PStr ''negative'') (zip (map PStr sents) (map PTime ts)))"
  let ?ndays = "map snd (filter (\<lambda>(s, d). s = ''negative'') (zip sents (map date_str ts)))"
  have ls: "length sents = length df" using col_length [OF s] by simp
  have lt: "length ts = length df" using col_length [OF t] by simp
  have c: "col ''timestamp'' (negative_rows df) = Inr ?nts"
    unfolding negative_rows_def by (rule col_filter [OF s t])
  have "\<exists>nts. ?nts = map PTime nts \<and> ?ndays = map date_str nts"
    using ls lt
  proof (induction sents ts arbitrary: df rule: list_induct2')
    case 1
    then show ?case by simp
  next
    case (2 x xs)
    then show ?case by simp
  next
    case (3 y ys)
    then show ?case by simp
  next
    case (4 x xs y ys)
    from 4(2,3) obtain r df' where df: "df = r # df'" by (cases df) auto
    with 4(2,3) have "length xs = length df'" "length ys = length df'" by auto
    from 4(1) [OF this] obtain nts where
      n: "map snd (filter (\<lambda>(x', y). x' = PStr ''negative'') (zip (map PStr xs) (map PTime ys))) = map PTime nts"
         "map snd (filter (\<lambda>(s, d). s = ''negative'') (zip xs (map date_str ys))) = map date_str nts"
      by blast
    show ?case
    proof (cases "x = ''negative''")
      case True
      with n have "map snd (filter (\<lambda>(x', y). x' = PStr ''negative'') (zip (map PStr (x # xs)) (map PTime (y # ys)))) = map PTime (y # nts)
          \<and> map snd (filter (\<lambda>(s, d). s = ''negative'') (zip (x # xs) (map date_str (y # ys)))) = map date_str (y # nts)"
        by simp
      then show ?thesis by blast
    next
      case False
      with n have "map snd (filter (\<lambda>(x', y). x' = PStr ''negative'') (zip (map PStr (x # xs)) (map PTime (y # ys)))) = map PTime nts
          \<and> map snd (filter (\<lambda>(s, d). s = ''negative'') (zip (x # xs) (map date_str (y # ys)))) = map date_str nts"
        by simp
      then show ?thesis by blast
    qed
  qed
  then obtain nts where nts: "?nts = map PTime nts" "?ndays = map date_str nts" by blast
  from c nts have c': "col ''timestamp'' (negative_rows df) = Inr (map PTime nts)" by simp
  have d: "day_column (negative_rows df) = Inr ?ndays"
    using day_column_times [OF c'] nts by simp
  have len: "length (negative_rows df) = length nts"
    using col_length [OF c'] by simp
  have e: "(negative_rows df \<noteq> []) = (?ndays \<noteq> [])"
    using len nts(2) by (metis length_0_conv length_map)
  have g: "groupby_size xs = [] \<longleftrightarrow> xs = []" for xs :: "string list"
  proof -
    have "length (sort (remdups xs)) = length (remdups xs)" by simp
    then have "sort (remdups xs) = [] \<longleftrightarrow> remdups xs = []"
      by (metis length_0_conv)
    then show ?thesis by (simp add: groupby_size_def)
  qed
  show ?thesis
    using s d e g [of ?ndays]
    by (simp add: negative_spikes_def Let_def spikes_def)
qed

lemma detect_trends_cols:
  assumes ne: "df \<noteq> []"
    and tm: "col ''timestamp'' df = Inr (map PTime ts)"
    and s: "col ''sentiment'' df = Inr (map PStr sents)"
    and c: "col ''category'' df = Inr (map PStr cats)"
  shows "detect_trends e df =
     Inr (assign ''day'' (map (\<lambda>t. PStr (date_str t)) ts) df,
          TrendDict (groupby_size (map date_str ts))
                    (pivot_counts (zip (map date_str ts) sents))
                    (pivot_counts (zip (map date_str ts) cats)))"
proof -
  let ?df' = "assign ''day'' (map (\<lambda>t. PStr (date_str t)) ts) df"
  have l: "length (map (\<lambda>t. PStr (date_str t)) ts) = length df"
    using col_length [OF tm] by simp
  have h: "has_col ''timestamp'' df" using tm by (auto simp: has_col_iff)
  have i: "is_datetime_col df" using tm by (auto simp: is_datetime_col_iff)
  have d: "day_column df = Inr (map date_str ts)" by (rule day_column_times [OF tm])
  have s': "col ''sentiment'' ?df' = Inr (map PStr sents)"
    using col_assign_other [OF _ l, of "''sentiment''" "''day''"] s by simp
  have c': "col ''category'' ?df' = Inr (map PStr cats)"
    using col_assign_other [OF _ l, of "''category''" "''day''"] c by simp
  have ls: "labels ''sentiment'' ?df' = Inr sents" by (rule labels_strs [OF s'])
  have lc: "labels ''category'' ?df' = Inr cats" by (rule labels_strs [OF c'])
  have m: "map PStr (map date_str ts) = map (\<lambda>t. PStr (date_str t)) ts" by simp
  show ?thesis
    unfolding detect_trends_def ensure_datetime_def
    by (simp only: h i d ne m ls lc Let_def if_True if_False not_True_eq_False simp_thms sum.case)
qed

lemma detect_anomalies_cols:
  assumes ne: "df \<noteq> []"
    and tm: "col ''timestamp'' df = Inr (map PTime ts)"
    and s: "col ''sentiment'' df = Inr (map PStr sents)"
  shows "detect_anomalies e df =
     Inr (df,
          if length (groupby_size (map date_str ts)) < 3 then NoAnomalies
          else Anomalies (spikes (groupby_size (map date_str ts)))
                 (let ndays = map snd (filter (\<lambda>(s, d). s = ''negative'') (zip sents (map date_str ts)))
                  in if ndays \<noteq> [] then spikes (groupby_size ndays) else []))"
proof -
  have h: "has_col ''timestamp'' df" using tm by (auto simp: has_col_iff)
  have i: "is_datetime_col df" using tm by (auto simp: is_datetime_col_iff)
  have d: "day_column df = Inr (map date_str ts)" by (rule day_column_times [OF tm])
  note n = negative_spikes_cols [OF s tm]
  show ?thesis
    unfolding detect_anomalies_def ensure_datetime_def
    by (simp add: h i d ne n Let_def del: map_map)
qed

lemma dataframe_to_serializable_cols:
  assumes ne: "df \<noteq> []"
    and tm: "col ''timestamp'' df = Inr (map PTime ts)"
  shows "dataframe_to_serializable df =
     Inr (assign ''timestamp'' (map (\<lambda>t. PStr (isoformat t)) ts) df)"
proof -
  have h: "has_col ''timestamp'' df" using tm by (auto simp: has_col_iff)
  show ?thesis
    unfolding dataframe_to_serializable_def
    by (simp add: h ne tm iso_cells)
qed

text \<open>
  What \<^verbatim>\<open>decide\<close> returns on a non-empty frame with a text column and a column of times:
  every stage succeeds, and the result is given by the columns.
\<close>

lemma decide_oriented:
  assumes ne: "df \<noteq> []"
    and tx: "col ''text'' df = Inr texts"
    and tm: "col ''timestamp'' df = Inr (map PTime ts)"
  shows "\<exists>urgs.
     mapE (determine_urgency e)
       (assign ''category'' (map (\<lambda>t. PStr (categorize_feedback e t)) texts)
         (assign ''sentiment'' (map (\<lambda>t. PStr (analyze_sentiment e t)) texts) df)) = Inr urgs \<and>
     length urgs = length df \<and>
     decide e df = Inr (AnalysisResult
       (assign ''timestamp'' (map (\<lambda>t. PStr (isoformat t)) ts)
         (assign ''day'' (map (\<lambda>t. PStr (date_str t)) ts)
           (assign ''urgency'' (map PStr urgs)
             (assign ''category'' (map (\<lambda>t. PStr (categorize_feedback e t)) texts)
               (assign ''sentiment'' (map (\<lambda>t. PStr (analyze_sentiment e t)) texts) df)))))
       (value_counts (map (analyze_sentiment e) texts))
       (value_counts (map (categorize_feedback e) texts))
       (case extract_keywords e texts 10 of Inl _ \<Rightarrow> [] | Inr ks \<Rightarrow> ks)
       (TrendDict (groupby_size (map date_str ts))
                  (pivot_counts (zip (map date_str ts) (map (analyze_sentiment e) texts)))
                  (pivot_counts (zip (map date_str ts) (map (categorize_feedback e) texts))))
       (if length (groupby_size (map date_str ts)) < 3 then NoAnomalies
        else Anomalies (spikes (groupby_size (map date_str ts)))
               (let ndays = map snd (filter (\<lambda>(s, d). s = ''negative'')
                                      (zip (map (analyze_sentiment e) texts) (map date_str ts)))
                in if ndays \<noteq> [] then spikes (groupby_size ndays) else [])))"
proof -
  let ?sv = "map (\<lambda>t. PStr (analyze_sentiment e t)) texts"
  let ?cv = "map (\<lambda>t. PStr (categorize_feedback e t)) texts"
  let ?dv = "map (\<lambda>t. PStr (date_str t)) ts"
  let ?sents = "map (analyze_sentiment e) texts"
  let ?cats = "map (categorize_feedback e) texts"
  let ?df1 = "assign ''sentiment'' ?sv df"
  let ?df2 = "assign ''category'' ?cv ?df1"
  have lx: "length texts = length df" using col_length [OF tx] by simp
  have lt: "length ts = length df" using col_length [OF tm] by simp
  have l1: "length ?sv = length df" using lx by simp
  have n1: "length ?df1 = length df" using l1 by (simp add: length_assign)
  have l2: "length ?cv = length ?df1" using lx n1 by simp
  have n2: "length ?df2 = length df" using l2 n1 by (simp add: length_assign)
  have t1: "col ''text'' ?df1 = Inr texts"
    by (rule trans [OF col_assign_other [OF _ l1] tx]) simp
  have m1: "col ''timestamp'' ?df1 = Inr (map PTime ts)"
    by (rule trans [OF col_assign_other [OF _ l1] tm]) simp
  have s1: "col ''sentiment'' ?df1 = Inr ?sv" by (rule col_assign_same [OF l1])
  have t2: "col ''text'' ?df2 = Inr texts"
    by (rule trans [OF col_assign_other [OF _ l2] t1]) simp
  have m2: "col ''timestamp'' ?df2 = Inr (map PTime ts)"
    by (rule trans [OF col_assign_other [OF _ l2] m1]) simp
  have s2: "col ''sentiment'' ?df2 = Inr ?sv"
    by (rule trans [OF col_assign_other [OF _ l2] s1]) simp
  have c2: "col ''category'' ?df2 = Inr ?cv" by (rule col_assign_same [OF l2])
  have "\<exists>urgs. mapE (determine_urgency e) ?df2 = Inr urgs"
    by (rule determine_urgency_total) (use t2 s2 c2 in \<open>auto simp: has_col_iff\<close>)
  then obtain urgs where u: "mapE (determine_urgency e) ?df2 = Inr urgs" ..
  let ?df3 = "assign ''urgency'' (map PStr urgs) ?df2"
  have lu: "length urgs = length df" using mapE_length [OF u] n2 by simp
  have l3: "length (map PStr urgs) = length ?df2" using lu n2 by simp
  have n3: "length ?df3 = length df" using l3 n2 by (simp add: length_assign)
  have ne3: "?df3 \<noteq> []" using n3 ne by (metis length_0_conv)
  have t3: "col ''text'' ?df3 = Inr texts"
    by (rule trans [OF col_assign_other [OF _ l3] t2]) simp
  have m3: "col ''timestamp'' ?df3 = Inr (map PTime ts)"
    by (rule trans [OF col_assign_other [OF _ l3] m2]) simp
  have s3v: "col ''sentiment'' ?df3 = Inr ?sv"
    by (rule trans [OF col_assign_other [OF _ l3] s2]) simp
  have c3v: "col ''category'' ?df3 = Inr ?cv"
    by (rule trans [OF col_assign_other [OF _ l3] c2]) simp
  have s3: "col ''sentiment'' ?df3 = Inr (map PStr ?sents)"
    by (rule trans [OF s3v]) simp
  have c3: "col ''category'' ?df3 = Inr (map PStr ?cats)"
    by (rule trans [OF c3v]) simp
  note tr = detect_trends_cols [OF ne3 m3 s3 c3, of e]
  let ?df4 = "assign ''day'' ?dv ?df3"
  have l4: "length ?dv = length ?df3" using lt n3 by simp
  have n4: "length ?df4 = length df" using l4 n3 by (simp add: length_assign)
  have ne4: "?df4 \<noteq> []" using n4 ne by (metis length_0_conv)
  have m4: "col ''timestamp'' ?df4 = Inr (map PTime ts)"
    by (rule trans [OF col_assign_other [OF _ l4] m3]) simp
  have s4: "col ''sentiment'' ?df4 = Inr (map PStr ?sents)"
    by (rule trans [OF col_assign_other [OF _ l4] s3]) simp
  have c4: "col ''category'' ?df4 = Inr (map PStr ?cats)"
    by (rule trans [OF col_assign_other [OF _ l4] c3]) simp
  note an = detect_anomalies_cols [OF ne4 m4 s4, of e]
  note ser = dataframe_to_serializable_cols [OF ne4 m4]
  note ls = labels_strs [OF s4]
  note lc = labels_strs [OF c4]
  have "decide_body e df = Inr (AnalysisResult
       (assign ''timestamp'' (map (\<lambda>t. PStr (isoformat t)) ts) ?df4)
       (value_counts ?sents) (value_counts ?cats)
       (case extract_keywords e texts 10 of Inl _ \<Rightarrow> [] | Inr ks \<Rightarrow> ks)
       (TrendDict (groupby_size (map date_str ts))
                  (pivot_counts (zip (map date_str ts) ?sents))
                  (pivot_counts (zip (map date_str ts) ?cats)))
       (if length (groupby_size (map date_str ts)) < 3 then NoAnomalies
        else Anomalies (spikes (groupby_size (map date_str ts)))
               (let ndays = map snd (filter (\<lambda>(s, d). s = ''negative'')
                                      (zip ?sents (map date_str ts)))
                in if ndays \<noteq> [] then spikes (groupby_size ndays) else [])))"
    unfolding decide_body_def
    by (simp only: tx t1 u t3 tr an ser ls lc Let_def sum.case prod.case
          make_time_trends_serializable_def make_anomalies_serializable_def
          time_trends.case anomalies.case if_distrib [of "case_anomalies _ _"] cong: if_cong)
  then have dec: "decide e df = Inr (AnalysisResult
       (assign ''timestamp'' (map (\<lambda>t. PStr (isoformat t)) ts) ?df4)
       (value_counts ?sents) (value_counts ?cats)
       (case extract_keywords e texts 10 of Inl _ \<Rightarrow> [] | Inr ks \<Rightarrow> ks)
       (TrendDict (groupby_size (map date_str ts))
                  (pivot_counts (zip (map date_str ts) ?sents))
                  (pivot_counts (zip (map date_str ts) ?cats)))
       (if length (groupby_size (map date_str ts)) < 3 then NoAnomalies
        else Anomalies (spikes (groupby_size (map date_str ts)))
               (let ndays = map snd (filter (\<lambda>(s, d). s = ''negative'')
                                      (zip ?sents (map date_str ts)))
                in if ndays \<noteq> [] then spikes (groupby_size ndays) else [])))"
    unfolding decide_def using ne by simp
  show ?thesis by (rule exI [of _ urgs]) (intro conjI, rule u, rule lu, rule dec)
qed

lemma length_assign_all: "length (assign_all c v df) = length df"
  by (simp add: assign_all_def length_assign)

lemma col_assign_all_other: "c' \<noteq> c \<Longrightarrow> col c' (assign_all c v df) = col c' df"
  unfolding assign_all_def by (rule col_assign_other) simp_all

lemma col_assign_all_same: "col c (assign_all c v df) = Inr (replicate (length df) v)"
  unfolding assign_all_def by (rule col_assign_same) simp

lemma orient_body_shape:
  assumes "orient_body e data = Inr df"
  shows "\<exists>texts ts. col ''text'' df = Inr texts \<and> col ''timestamp'' df = Inr (map PTime ts)"
proof -
  from assms obtain df0 where d0: "DataFrame e data = Inr df0"
    by (auto simp: orient_body_def split: sum.splits)
  define df1 where "df1 = (if \<not> has_col ''text'' df0
                  then assign_all ''text'' (PStr ''No text available'') df0 else df0)"
  define df2 where "df2 = (if \<not> has_col ''timestamp'' df1
                  then assign_all ''timestamp'' (PStr (strftime (now e))) df1 else df1)"
  define df3 where "df3 = (if \<not> has_col ''platform'' df2
                  then assign_all ''platform'' (PStr ''Unknown'') df2 else df2)"
  have body: "orient_body e data =
     (case col ''text'' df3 of Inl x \<Rightarrow> Inl x | Inr texts \<Rightarrow>
           (let df4 = assign ''text'' (map (\<lambda>v. PStr (str e v)) texts) df3
            in (case convert_timestamps e df4 of
                  Inl _ \<Rightarrow> Inr (assign_all ''timestamp'' (PTime (now e)) df4)
                | Inr df5 \<Rightarrow> Inr df5)))"
    unfolding orient_body_def df3_def df2_def df1_def by (simp only: d0 sum.case Let_def)
  from assms body obtain texts where tx: "col ''text'' df3 = Inr texts"
    by (cases "col ''text'' df3") auto
  define df4 where "df4 = assign ''text'' (map (\<lambda>v. PStr (str e v)) texts) df3"
  have l4: "length (map (\<lambda>v. PStr (str e v)) texts) = length df3"
    using col_length [OF tx] by simp
  have t4: "col ''text'' df4 = Inr (map (\<lambda>v. PStr (str e v)) texts)"
    unfolding df4_def by (rule col_assign_same [OF l4])
  have res: "(case convert_timestamps e df4 of
                  Inl _ \<Rightarrow> Inr (assign_all ''timestamp'' (PTime (now e)) df4)
                | Inr df5 \<Rightarrow> Inr df5) = (Inr df :: exn + frame)"
    using assms [unfolded body] by (simp only: tx sum.case Let_def df4_def)
  show ?thesis
  proof (cases "convert_timestamps e df4")
    case (Inl x)
    with res have df: "df = assign_all ''timestamp'' (PTime (now e)) df4" by simp
    have a: "col ''text'' df = Inr (map (\<lambda>v. PStr (str e v)) texts)"
      unfolding df by (rule trans [OF col_assign_all_other t4]) simp
    have b: "col ''timestamp'' df = Inr (map PTime (replicate (length df4) (now e)))"
      unfolding df by (simp add: col_assign_all_same)
    from a b show ?thesis by blast
  next
    case (Inr df5)
    with res have df: "df5 = df" by simp
    from Inr obtain cells parsed where
      c: "col ''timestamp'' df4 = Inr cells" and
      p: "mapE (to_datetime e) cells = Inr parsed" and
      d5: "df5 = assign ''timestamp''
              (map (\<lambda>p. PTime (case p of None \<Rightarrow> now e | Some t \<Rightarrow> t)) parsed) df4"
      by (auto simp: convert_timestamps_def split: sum.splits)
    let ?ts = "map (\<lambda>p. case p of None \<Rightarrow> now e | Some t \<Rightarrow> t) parsed"
    have l: "length (map PTime ?ts) = length df4"
      using mapE_length [OF p] col_length [OF c] by simp
    have d5': "df = assign ''timestamp'' (map PTime ?ts) df4"
      using d5 df by (simp add: comp_def)
    have a: "col ''text'' df = Inr (map (\<lambda>v. PStr (str e v)) texts)"
      unfolding d5' by (rule trans [OF col_assign_other [OF _ l] t4]) simp
    have b: "col ''timestamp'' df = Inr (map PTime ?ts)"
      unfolding d5' by (rule col_assign_same [OF l])
    from a b show ?thesis by blast
  qed
qed

lemma orient_shape:
  assumes "orient e data = Inr df" and "df \<noteq> []"
  shows "\<exists>texts ts. col ''text'' df = Inr texts \<and> col ''timestamp'' df = Inr (map PTime ts)"
proof -
  from assms have "orient_body e data = Inr df"
    by (auto simp: orient_def split: if_splits sum.splits)
  then show ?thesis by (rule orient_body_shape)
qed

lemma col_map_of: "col c df = Inr vs \<Longrightarrow> map (\<lambda>r. map_of r c) df = map Some vs"
proof (induction df arbitrary: vs)
  case Nil
  then show ?case by simp
next
  case (Cons r df)
  then show ?case
    by (auto simp: col_Cons getitem_def split: option.splits sum.splits)
qed

lemma has_col_assign:
  "length vs = length df \<Longrightarrow> has_col k (assign c vs df) \<longleftrightarrow> k = c \<or> has_col k df"
proof (cases "k = c")
  case True
  assume "length vs = length df"
  from col_assign_same [OF this, of c] True show ?thesis by (auto simp: has_col_iff)
next
  case False
  assume "length vs = length df"
  from col_assign_other [OF False this] False show ?thesis by (simp add: has_col_iff)
qed

lemma has_col_assign_all: "has_col k (assign_all c v df) \<longleftrightarrow> k = c \<or> has_col k df"
  unfolding assign_all_def by (rule has_col_assign) simp

lemma convert_timestamps_length: "convert_timestamps e df = Inr df' \<Longrightarrow> length df' = length df"
proof -
  assume "convert_timestamps e df = Inr df'"
  then obtain cells parsed where
      c: "col ''timestamp'' df = Inr cells" and
      p: "mapE (to_datetime e) cells = Inr parsed" and
      d: "df' = assign ''timestamp''
              (map (\<lambda>p. PTime (case p of None \<Rightarrow> now e | Some t \<Rightarrow> t)) parsed) df"
    by (auto simp: convert_timestamps_def split: sum.splits)
  show ?thesis
    unfolding d using mapE_length [OF p] col_length [OF c] by (simp add: length_assign)
qed

lemma convert_timestamps_has_col:
  "convert_timestamps e df = Inr df' \<Longrightarrow> has_col k df \<Longrightarrow> has_col k df'"
proof -
  assume a: "convert_timestamps e df = Inr df'" and h: "has_col k df"
  from a obtain cells parsed where
      c: "col ''timestamp'' df = Inr cells" and
      p: "mapE (to_datetime e) cells = Inr parsed" and
      d: "df' = assign ''timestamp''
              (map (\<lambda>p. PTime (case p of None \<Rightarrow> now e | Some t \<Rightarrow> t)) parsed) df"
    by (auto simp: convert_timestamps_def split: sum.splits)
  have l: "length (map (\<lambda>p. PTime (case p of None \<Rightarrow> now e | Some t \<Rightarrow> t)) parsed) = length df"
    using mapE_length [OF p] col_length [OF c] by simp
  show ?thesis unfolding d using h by (simp add: has_col_assign [OF l])
qed

lemma orient_body_platform:
  assumes "orient_body e data = Inr df"
  shows "has_col ''platform'' df"
proof -
  from assms obtain df0 where d0: "DataFrame e data = Inr df0"
    by (auto simp: orient_body_def split: sum.splits)
  define df1 where "df1 = (if \<not> has_col ''text'' df0
                  then assign_all ''text'' (PStr ''No text available'') df0 else df0)"
  define df2 where "df2 = (if \<not> has_col ''timestamp'' df1
                  then assign_all ''timestamp'' (PStr (strftime (now e))) df1 else df1)"
  define df3 where "df3 = (if \<not> has_col ''platform'' df2
                  then assign_all ''platform'' (PStr ''Unknown'') df2 else df2)"
  have body: "orient_body e data =
     (case col ''text'' df3 of Inl x \<Rightarrow> Inl x | Inr texts \<Rightarrow>
           (let df4 = assign ''text'' (map (\<lambda>v. PStr (str e v)) texts) df3
            in (case convert_timestamps e df4 of
                  Inl _ \<Rightarrow> Inr (assign_all ''timestamp'' (PTime (now e)) df4)
                | Inr df5 \<Rightarrow> Inr df5)))"
    unfolding orient_body_def df3_def df2_def df1_def by (simp only: d0 sum.case Let_def)
  from assms body obtain texts where tx: "col ''text'' df3 = Inr texts"
    by (cases "col ''text'' df3") auto
  define df4 where "df4 = assign ''text'' (map (\<lambda>v. PStr (str e v)) texts) df3"
  have l4: "length (map (\<lambda>v. PStr (str e v)) texts) = length df3"
    using col_length [OF tx] by simp
  have p3: "has_col ''platform'' df3"
    unfolding df3_def by (simp add: has_col_assign_all)
  have p4: "has_col ''platform'' df4"
    unfolding df4_def using p3 by (simp add: has_col_assign [OF l4])
  have res: "(case convert_timestamps e df4 of
                  Inl _ \<Rightarrow> Inr (assign_all ''timestamp'' (PTime (now e)) df4)
                | Inr df5 \<Rightarrow> Inr df5) = (Inr df :: exn + frame)"
    using assms [unfolded body] by (simp only: tx sum.case Let_def df4_def)
  show ?thesis
  proof (cases "convert_timestamps e df4")
    case (Inl x)
    with res have df: "df = assign_all ''timestamp'' (PTime (now e)) df4" by simp
    show ?thesis unfolding df using p4 by (simp add: has_col_assign_all)
  next
    case (Inr df5)
    with res have df: "df5 = df" by simp
    from convert_timestamps_has_col [OF Inr p4] df show ?thesis by simp
  qed
qed

lemma orient_platform: "orient e data = Inr df \<Longrightarrow> has_col ''platform'' df"
proof (cases "df = []")
  case True
  then show ?thesis by (simp add: has_col_def)
next
  case False
  assume "orient e data = Inr df"
  with False have "orient_body e data = Inr df"
    by (auto simp: orient_def split: if_splits sum.splits)
  then show ?thesis by (rule orient_body_platform)
qed

lemma groupby_size_sum: "sum_list (map snd (groupby_size keys)) = length keys"
proof -
  have "sum_list (map snd (groupby_size keys)) = sum_list (map (count_list keys) (sort (remdups keys)))"
    by (simp add: groupby_size_def comp_def)
  also have "\<dots> = sum (count_list keys) (set (sort (remdups keys)))"
    by (rule sum_list_distinct_conv_sum_set) simp
  also have "\<dots> = sum (count_list keys) (set keys)" by simp
  also have "\<dots> = length keys" by (rule sum_count_set) simp_all
  finally show ?thesis .
qed

lemma day_column_length: "day_column df = Inr days \<Longrightarrow> length days = length df"
proof -
  assume "day_column df = Inr days"
  then obtain cells where c: "col ''timestamp'' df = Inr cells" and
    m: "mapE (\<lambda>v. case v of PTime t \<Rightarrow> Inr (date_str t) | _ \<Rightarrow> Inl AttributeError) cells = Inr days"
    by (auto simp: day_column_def split: sum.splits)
  from mapE_length [OF m] col_length [OF c] show ?thesis by simp
qed

lemma ensure_datetime_length: "ensure_datetime e df = Inr df' \<Longrightarrow> length df' = length df"
  by (auto simp: ensure_datetime_def split: if_splits dest: convert_timestamps_length)

lemma detect_trends_sum:
  assumes "detect_trends e df = Inr (df', TrendDict d s c)"
  shows "sum_list (map snd d) = length df"
proof -
  from assms obtain df1 days where
    1: "ensure_datetime e df = Inr df1" and 2: "day_column df1 = Inr days" and
    3: "d = groupby_size days"
    by (auto simp: detect_trends_def Let_def split: if_splits sum.splits)
  show ?thesis
    unfolding 3 groupby_size_sum
    using day_column_length [OF 2] ensure_datetime_length [OF 1] by simp
qed

section \<open>Properties of the trend aggregator\<close>

lemma orient_sample_batch: "orient env0 sample_batch = Inr sample_frame"
  by code_simp

lemma sample_frame_timestamps:
  "col ''timestamp'' sample_frame
     = Inr (map PTime [DateTime 2025 1 10 8 30 0, DateTime 2025 1 15 12 0 0])"
  by (simp add: sample_frame_def col_def getitem_def)

lemma sample_frame_days:
  "map date_str [DateTime 2025 1 10 8 30 0, DateTime 2025 1 15 12 0 0]
     = [''2025-01-10'', ''2025-01-15'']"
  by code_simp

lemma detect_trends_day:
  assumes ne: "df \<noteq> []" and tm: "col ''timestamp'' df = Inr (map PTime ts)"
  shows "\<exists>t. detect_trends e df = Inr (assign ''day'' (map (\<lambda>t. PStr (date_str t)) ts) df, t)"
proof -
  have h: "has_col ''timestamp'' df" using tm by (auto simp: has_col_iff)
  have i: "is_datetime_col df" using tm by (auto simp: is_datetime_col_iff)
  have d: "day_column df = Inr (map date_str ts)" by (rule day_column_times [OF tm])
  show ?thesis
    unfolding detect_trends_def ensure_datetime_def
    by (simp add: h i d ne Let_def comp_def split: sum.split)
qed

text \<open>
  Claim C9. \<^verbatim>\<open>detect_trends\<close> assigns the day key of every row to the column \<^verbatim>\<open>day\<close> of the
  frame it is given, and \<^verbatim>\<open>decide\<close> serialises that same frame afterwards: for every
  non-empty frame that \<^verbatim>\<open>orient\<close> returns, \<^verbatim>\<open>decide\<close> returns a result whose feedback_data has
  one record per row, each with the fields text, timestamp, platform, sentiment, category
  and urgency and, beyond them, the field \<^verbatim>\<open>day\<close> holding the \<^verbatim>\<open>YYYY-MM-DD\<close> string of the row's
  timestamp.
\<close>

theorem feedback_data_day_field:
  "(df \<noteq> [] \<and> col ''timestamp'' df = Inr (map PTime ts) \<longrightarrow>
      (\<exists>t. detect_trends e df = Inr (assign ''day'' (map (\<lambda>t. PStr (date_str t)) ts) df, t)))
   \<and> (orient e batch = Inr fr \<and> fr \<noteq> [] \<longrightarrow>
      (\<exists>times r.
          col ''timestamp'' fr = Inr (map PTime times)
        \<and> decide e fr = Inr r
        \<and> length (feedback_data r) = length fr
        \<and> map (\<lambda>rec. map_of rec ''day'') (feedback_data r)
            = map (\<lambda>t. Some (PStr (date_str t))) times
        \<and> list_all (\<lambda>k. has_col k (feedback_data r))
            [''text'', ''timestamp'', ''platform'', ''sentiment'', ''category'', ''urgency'']))"
proof (intro conjI impI)
  assume "df \<noteq> [] \<and> col ''timestamp'' df = Inr (map PTime ts)"
  then show "\<exists>t. detect_trends e df = Inr (assign ''day'' (map (\<lambda>t. PStr (date_str t)) ts) df, t)"
    using detect_trends_day by blast
next
  assume a: "orient e batch = Inr fr \<and> fr \<noteq> []"
  then have o: "orient e batch = Inr fr" and ne: "fr \<noteq> []" by simp_all
  from orient_shape [OF o ne] obtain texts times where
    tx: "col ''text'' fr = Inr texts" and tm: "col ''timestamp'' fr = Inr (map PTime times)"
    by blast
  have pl: "has_col ''platform'' fr" by (rule orient_platform [OF o])
  have ht: "has_col ''text'' fr" using tx by (auto simp: has_col_iff)
  have lx: "length texts = length fr" using col_length [OF tx] by simp
  have lt: "length times = length fr" using col_length [OF tm] by simp
  from decide_oriented [OF ne tx tm, of e] obtain urgs where
    lu: "length urgs = length fr" and
    dec: "decide e fr = Inr (AnalysisResult
       (assign ''timestamp'' (map (\<lambda>t. PStr (isoformat t)) times)
         (assign ''day'' (map (\<lambda>t. PStr (date_str t)) times)
           (assign ''urgency'' (map PStr urgs)
             (assign ''category'' (map (\<lambda>t. PStr (categorize_feedback e t)) texts)
               (assign ''sentiment'' (map (\<lambda>t. PStr (analyze_sentiment e t)) texts) fr)))))
       (value_counts (map (analyze_sentiment e) texts))
       (value_counts (map (categorize_feedback e) texts))
       (case extract_keywords e texts 10 of Inl _ \<Rightarrow> [] | Inr ks \<Rightarrow> ks)
       (TrendDict (groupby_size (map date_str times))
                  (pivot_counts (zip (map date_str times) (map (analyze_sentiment e) texts)))
                  (pivot_counts (zip (map date_str times) (map (categorize_feedback e) texts))))
       (if length (groupby_size (map date_str times)) < 3 then NoAnomalies
        else Anomalies (spikes (groupby_size (map date_str times)))
               (let ndays = map snd (filter (\<lambda>(s, d). s = ''negative'')
                                      (zip (map (analyze_sentiment e) texts) (map date_str times)))
                in if ndays \<noteq> [] then spikes (groupby_size ndays) else [])))"
    by blast
  let ?recs = "assign ''timestamp'' (map (\<lambda>t. PStr (isoformat t)) times)
         (assign ''day'' (map (\<lambda>t. PStr (date_str t)) times)
           (assign ''urgency'' (map PStr urgs)
             (assign ''category'' (map (\<lambda>t. PStr (categorize_feedback e t)) texts)
               (assign ''sentiment'' (map (\<lambda>t. PStr (analyze_sentiment e t)) texts) fr))))"
  have len: "length ?recs = length fr"
    by (simp add: length_assign lx lt lu)
  have day: "col ''day'' ?recs = Inr (map (\<lambda>t. PStr (date_str t)) times)"
    by (simp add: col_assign_other col_assign_same length_assign lx lt lu)
  have m: "map (\<lambda>rec. map_of rec ''day'') ?recs = map (\<lambda>t. Some (PStr (date_str t))) times"
    using col_map_of [OF day] by (simp add: comp_def)
  have cols: "list_all (\<lambda>k. has_col k ?recs)
      [''text'', ''timestamp'', ''platform'', ''sentiment'', ''category'', ''urgency'']"
    by (simp add: has_col_assign length_assign lx lt lu ht pl)
  show "\<exists>times r.
          col ''timestamp'' fr = Inr (map PTime times)
        \<and> decide e fr = Inr r
        \<and> length (feedback_data r) = length fr
        \<and> map (\<lambda>rec. map_of rec ''day'') (feedback_data r)
            = map (\<lambda>t. Some (PStr (date_str t))) times
        \<and> list_all (\<lambda>k. has_col k (feedback_data r))
            [''text'', ''timestamp'', ''platform'', ''sentiment'', ''category'', ''urgency'']"
    apply (rule exI [of _ times])
    apply (rule exI)
    apply (intro conjI)
        apply (rule tm)
       apply (rule dec)
      apply (simp only: analysis_result.sel len)
     apply (simp only: analysis_result.sel m)
    apply (simp only: analysis_result.sel cols)
    done
qed

lemma date_str_sample:
  "date_str (DateTime 2025 1 10 8 30 0) = ''2025-01-10''"
  "date_str (DateTime 2025 1 15 12 0 0) = ''2025-01-15''"
  by code_simp+

lemma unparsed_frame_trends:
  "detect_trends env0 unparsed_frame = Inr
     ([[(''text'', PStr ''ok''), (''timestamp'', PTime (DateTime 2025 1 10 8 30 0)),
        (''sentiment'', PStr ''neutral''), (''category'', PStr ''other''),
        (''day'', PStr ''2025-01-10'')],
       [(''text'', PStr ''hm''), (''timestamp'', PTime (DateTime 2025 1 15 12 0 0)),
        (''sentiment'', PStr ''neutral''), (''category'', PStr ''other''),
        (''day'', PStr ''2025-01-15'')]],
      TrendDict [(''2025-01-10'', 1), (''2025-01-15'', 1)]
       [(''2025-01-10'', [(''neutral'', 1)]), (''2025-01-15'', [(''neutral'', 1)])]
       [(''2025-01-10'', [(''other'', 1)]), (''2025-01-15'', [(''other'', 1)])])"
proof -
  let ?f1 = "[[(''text'', PStr ''ok''), (''timestamp'', PTime (DateTime 2025 1 10 8 30 0)),
        (''sentiment'', PStr ''neutral''), (''category'', PStr ''other'')],
       [(''text'', PStr ''hm''), (''timestamp'', PTime (DateTime 2025 1 15 12 0 0)),
        (''sentiment'', PStr ''neutral''), (''category'', PStr ''other'')]]"
  let ?f2 = "[[(''text'', PStr ''ok''), (''timestamp'', PTime (DateTime 2025 1 10 8 30 0)),
        (''sentiment'', PStr ''neutral''), (''category'', PStr ''other''),
        (''day'', PStr ''2025-01-10'')],
       [(''text'', PStr ''hm''), (''timestamp'', PTime (DateTime 2025 1 15 12 0 0)),
        (''sentiment'', PStr ''neutral''), (''category'', PStr ''other''),
        (''day'', PStr ''2025-01-15'')]]"
  have h: "has_col ''timestamp'' unparsed_frame"
    by (simp add: has_col_def unparsed_frame_def)
  have ne: "unparsed_frame \<noteq> []" by (simp add: unparsed_frame_def)
  have e1: "ensure_datetime env0 unparsed_frame = Inr ?f1" by code_simp
  have d: "day_column ?f1 = Inr [''2025-01-10'', ''2025-01-15'']"
    by (simp add: day_column_def col_def getitem_def date_str_sample del: One_nat_def)
  have a: "assign ''day'' (map PStr [''2025-01-10'', ''2025-01-15'']) ?f1 = ?f2" by code_simp
  have ls: "labels ''sentiment'' ?f2 = Inr [''neutral'', ''neutral'']"
    by (simp add: labels_def col_def getitem_def)
  have lc: "labels ''category'' ?f2 = Inr [''other'', ''other'']"
    by (simp add: labels_def col_def getitem_def)
  have g: "groupby_size [''2025-01-10'', ''2025-01-15'']
      = [(''2025-01-10'', 1), (''2025-01-15'', 1)]" by code_simp
  have p1: "pivot_counts (zip [''2025-01-10'', ''2025-01-15''] [''neutral'', ''neutral''])
      = [(''2025-01-10'', [(''neutral'', 1)]), (''2025-01-15'', [(''neutral'', 1)])]" by code_simp
  have p2: "pivot_counts (zip [''2025-01-10'', ''2025-01-15''] [''other'', ''other''])
      = [(''2025-01-10'', [(''other'', 1)]), (''2025-01-15'', [(''other'', 1)])]" by code_simp
  show ?thesis
    unfolding detect_trends_def
    by (simp only: h ne e1 d a ls lc g p1 p2 Let_def sum.case if_False simp_thms)
qed

theorem feedback_data_day_field_witness:
  "orient env0 sample_batch = Inr sample_frame \<and> sample_frame \<noteq> []
   \<and> (\<exists>r. decide env0 sample_frame = Inr r
          \<and> length (feedback_data r) = 2
          \<and> map (\<lambda>rec. map_of rec ''day'') (feedback_data r)
              = [Some (PStr ''2025-01-10''), Some (PStr ''2025-01-15'')])
   \<and> (\<exists>t. detect_trends env0 sample_frame
          = Inr (assign ''day'' [PStr ''2025-01-10'', PStr ''2025-01-15''] sample_frame, t))"
proof -
  have ne: "sample_frame \<noteq> []" by (simp add: sample_frame_def)
  note th = feedback_data_day_field [of sample_frame
      "[DateTime 2025 1 10 8 30 0, DateTime 2025 1 15 12 0 0]" env0 sample_batch sample_frame]
  note a = th [THEN conjunct1, THEN mp, OF conjI [OF ne sample_frame_timestamps]]
  note b = th [THEN conjunct2, THEN mp, OF conjI [OF orient_sample_batch ne]]
  from b obtain times r where
    tm: "col ''timestamp'' sample_frame = Inr (map PTime times)" and
    dec: "decide env0 sample_frame = Inr r" and
    len: "length (feedback_data r) = length sample_frame" and
    day: "map (\<lambda>rec. map_of rec ''day'') (feedback_data r)
            = map (\<lambda>t. Some (PStr (date_str t))) times"
    by blast
  from tm sample_frame_timestamps
  have "map PTime times = map PTime [DateTime 2025 1 10 8 30 0, DateTime 2025 1 15 12 0 0]"
    by simp
  then have times: "times = [DateTime 2025 1 10 8 30 0, DateTime 2025 1 15 12 0 0]"
    by (auto simp: map_eq_Cons_conv)
  have d1: "date_str (DateTime 2025 1 10 8 30 0) = ''2025-01-10''" by code_simp
  have d2: "date_str (DateTime 2025 1 15 12 0 0) = ''2025-01-15''" by code_simp
  have len2: "length (feedback_data r) = 2" using len by (simp add: sample_frame_def)
  have day2: "map (\<lambda>rec. map_of rec ''day'') (feedback_data r)
              = [Some (PStr ''2025-01-10''), Some (PStr ''2025-01-15'')]"
    unfolding day times by (simp only: list.map d1 d2)
  have c: "\<exists>r. decide env0 sample_frame = Inr r
          \<and> length (feedback_data r) = 2
          \<and> map (\<lambda>rec. map_of rec ''day'') (feedback_data r)
              = [Some (PStr ''2025-01-10''), Some (PStr ''2025-01-15'')]"
    by (rule exI [of _ r]) (intro conjI, rule dec, rule len2, rule day2)
  have a': "\<exists>t. detect_trends env0 sample_frame
          = Inr (assign ''day'' [PStr ''2025-01-10'', PStr ''2025-01-15''] sample_frame, t)"
    using a by (simp only: list.map d1 d2)
  show ?thesis by (intro conjI) (rule orient_sample_batch, rule ne, rule c, rule a')
qed

text \<open>
  Claim C7. Whenever \<^verbatim>\<open>detect_trends\<close> returns its dict, the counts of \<^verbatim>\<open>daily_count\<close> add up to
  the number of rows of the frame it was given: a row whose timestamp could not be read
  has been given the current time and is counted under that day. On every non-empty frame
  that \<^verbatim>\<open>orient\<close> returns, \<^verbatim>\<open>decide\<close> returns a result whose time_trends is the dict, and its
  daily counts add up to the number of rows, which is also the number of records of
  feedback_data.
\<close>

theorem daily_count_sum:
  "(detect_trends e df = Inr (df', TrendDict d s c) \<longrightarrow> sum_list (map snd d) = length df)
   \<and> (orient e batch = Inr fr \<and> fr \<noteq> [] \<longrightarrow>
        (\<exists>r. decide e fr = Inr r \<and> is_mapping (time_trends r)
           \<and> sum_list (map snd (daily_count (time_trends r))) = length fr
           \<and> length (feedback_data r) = length fr))"
proof (intro conjI impI)
  assume "detect_trends e df = Inr (df', TrendDict d s c)"
  then show "sum_list (map snd d) = length df" by (rule detect_trends_sum)
next
  assume a: "orient e batch = Inr fr \<and> fr \<noteq> []"
  then have o: "orient e batch = Inr fr" and ne: "fr \<noteq> []" by simp_all
  from orient_shape [OF o ne] obtain texts times where
    tx: "col ''text'' fr = Inr texts" and tm: "col ''timestamp'' fr = Inr (map PTime times)"
    by blast
  have lx: "length texts = length fr" using col_length [OF tx] by simp
  have lt: "length times = length fr" using col_length [OF tm] by simp
  from decide_oriented [OF ne tx tm, of e] obtain urgs where
    lu: "length urgs = length fr" and
    dec0: "decide e fr = Inr (AnalysisResult
       (assign ''timestamp'' (map (\<lambda>t. PStr (isoformat t)) times)
         (assign ''day'' (map (\<lambda>t. PStr (date_str t)) times)
           (assign ''urgency'' (map PStr urgs)
             (assign ''category'' (map (\<lambda>t. PStr (categorize_feedback e t)) texts)
               (assign ''sentiment'' (map (\<lambda>t. PStr (analyze_sentiment e t)) texts) fr)))))
       (value_counts (map (analyze_sentiment e) texts))
       (value_counts (map (categorize_feedback e) texts))
       (case extract_keywords e texts 10 of Inl _ \<Rightarrow> [] | Inr ks \<Rightarrow> ks)
       (TrendDict (groupby_size (map date_str times))
                  (pivot_counts (zip (map date_str times) (map (analyze_sentiment e) texts)))
                  (pivot_counts (zip (map date_str times) (map (categorize_feedback e) texts))))
       (if length (groupby_size (map date_str times)) < 3 then NoAnomalies
        else Anomalies (spikes (groupby_size (map date_str times)))
               (let ndays = map snd (filter (\<lambda>(s, d). s = ''negative'')
                                      (zip (map (analyze_sentiment e) texts) (map date_str times)))
                in if ndays \<noteq> [] then spikes (groupby_size ndays) else [])))"
    by blast
  let ?recs = "assign ''timestamp'' (map (\<lambda>t. PStr (isoformat t)) times)
         (assign ''day'' (map (\<lambda>t. PStr (date_str t)) times)
           (assign ''urgency'' (map PStr urgs)
             (assign ''category'' (map (\<lambda>t. PStr (categorize_feedback e t)) texts)
               (assign ''sentiment'' (map (\<lambda>t. PStr (analyze_sentiment e t)) texts) fr))))"
  let ?tt = "TrendDict (groupby_size (map date_str times))
                  (pivot_counts (zip (map date_str times) (map (analyze_sentiment e) texts)))
                  (pivot_counts (zip (map date_str times) (map (categorize_feedback e) texts)))"
  define r where "r = AnalysisResult ?recs
       (value_counts (map (analyze_sentiment e) texts))
       (value_counts (map (categorize_feedback e) texts))
       (case extract_keywords e texts 10 of Inl _ \<Rightarrow> [] | Inr ks \<Rightarrow> ks)
       ?tt
       (if length (groupby_size (map date_str times)) < 3 then NoAnomalies
        else Anomalies (spikes (groupby_size (map date_str times)))
               (let ndays = map snd (filter (\<lambda>(s, d). s = ''negative'')
                                      (zip (map (analyze_sentiment e) texts) (map date_str times)))
                in if ndays \<noteq> [] then spikes (groupby_size ndays) else []))"
  have dec: "decide e fr = Inr r" unfolding r_def by (rule dec0)
  have fd: "feedback_data r = ?recs" unfolding r_def by (simp only: analysis_result.sel)
  have tt: "time_trends r = ?tt" unfolding r_def by (simp only: analysis_result.sel)
  have 1: "is_mapping (time_trends r)" unfolding tt by (simp add: is_mapping_def)
  have 2: "sum_list (map snd (daily_count (time_trends r))) = length fr"
    unfolding tt by (simp add: groupby_size_sum lt)
  have 3: "length (feedback_data r) = length fr"
    unfolding fd by (simp add: length_assign lx lt lu)
  show "\<exists>r. decide e fr = Inr r \<and> is_mapping (time_trends r)
           \<and> sum_list (map snd (daily_count (time_trends r))) = length fr
           \<and> length (feedback_data r) = length fr"
    by (rule exI [of _ r]) (intro conjI, rule dec, rule 1, rule 2, rule 3)
qed

theorem daily_count_sum_witness:
  "(\<exists>df' d s c. detect_trends env0 unparsed_frame = Inr (df', TrendDict d s c)
        \<and> d = [(''2025-01-10'', 1), (''2025-01-15'', 1)]
        \<and> sum_list (map snd d) = length unparsed_frame)
   \<and> orient env0 sample_batch = Inr sample_frame \<and> sample_frame \<noteq> []
   \<and> (\<exists>r. decide env0 sample_frame = Inr r \<and> is_mapping (time_trends r)
         \<and> sum_list (map snd (daily_count (time_trends r))) = 2)"
proof -
  have ne: "sample_frame \<noteq> []" by (simp add: sample_frame_def)
  note a = daily_count_sum [THEN conjunct1, THEN mp, OF unparsed_frame_trends]
  have 1: "\<exists>df' d s c. detect_trends env0 unparsed_frame = Inr (df', TrendDict d s c)
        \<and> d = [(''2025-01-10'', 1), (''2025-01-15'', 1)]
        \<and> sum_list (map snd d) = length unparsed_frame"
    by (intro exI conjI) (rule unparsed_frame_trends, rule refl, rule a)
  note b = daily_count_sum [of env0 "[]" "[]" "[]" "[]" "[]" sample_batch sample_frame,
      THEN conjunct2, THEN mp, OF conjI [OF orient_sample_batch ne]]
  from b obtain r where
    dec: "decide env0 sample_frame = Inr r" and
    mp: "is_mapping (time_trends r)" and
    sm: "sum_list (map snd (daily_count (time_trends r))) = length sample_frame"
    by blast
  have sm2: "sum_list (map snd (daily_count (time_trends r))) = 2"
    using sm by (simp add: sample_frame_def)
  have 2: "\<exists>r. decide env0 sample_frame = Inr r \<and> is_mapping (time_trends r)
         \<and> sum_list (map snd (daily_count (time_trends r))) = 2"
    by (rule exI [of _ r]) (intro conjI, rule dec, rule mp, rule sm2)
  show ?thesis by (intro conjI) (rule 1, rule orient_sample_batch, rule ne, rule 2)
qed

section \<open>Properties of the anomaly detector\<close>





lemma sqrt_bound: "7 \<le> sqrt (246 / 4)"
  by (rule real_le_rsqrt) simp

lemma mean_five: "mean [2, 3, 2, 3, 20] = 6"
  by (simp add: mean_def)

lemma std_five: "std [2, 3, 2, 3, 20] = sqrt (246 / 4)"
  by (simp add: std_def mean_five power2_eq_square)

lemma spikes_five:
  assumes "map snd dc = [2, 3, 2, 3, 20]"
  shows "spikes dc = []"
proof -
  have l: "length dc = 5" using arg_cong [OF assms, of length] by simp
  have thr: "(20::real) \<le> 6 + 2 * sqrt (246 / 4)" using sqrt_bound by simp
  have "\<not> real c > 6 + 2 * sqrt (246 / 4)" if "(d, c) \<in> set dc" for d c
  proof -
    from that have "c \<in> set (map snd dc)" by force
    then have "c \<le> 20" unfolding assms by auto
    then have "real c \<le> 20" by simp
    with thr show ?thesis by linarith
  qed
  then have "filter (\<lambda>(d, c). real c > 6 + 2 * sqrt (246 / 4)) dc = []"
    by (auto simp: filter_empty_conv)
  then show ?thesis
    by (simp add: spikes_def above_def assms mean_five std_five l)
qed

lemma mapE_map_map: "(\<And>x. F (f x) = Inr (g x)) \<Longrightarrow> mapE F (map f xs) = Inr (map g xs)"
  by (induction xs) simp_all

lemma spike_frame_timestamps:
  "col ''timestamp'' spike_frame
     = Inr (map PTime (map (\<lambda>d. DateTime 2025 3 d 9 0 0) spike_days))"
  unfolding col_def spike_frame_def map_map comp_def
  by (rule mapE_map_map) (simp add: getitem_def)

lemma spike_frame_sentiments:
  "col ''sentiment'' spike_frame = Inr (map PStr (map (\<lambda>d. ''neutral'') spike_days))"
  unfolding col_def spike_frame_def map_map comp_def
  by (rule mapE_map_map) (simp add: getitem_def)

lemma spike_dates:
  "date_str (DateTime 2025 3 1 9 0 0) = ''2025-03-01''"
  "date_str (DateTime 2025 3 2 9 0 0) = ''2025-03-02''"
  "date_str (DateTime 2025 3 3 9 0 0) = ''2025-03-03''"
  "date_str (DateTime 2025 3 4 9 0 0) = ''2025-03-04''"
  "date_str (DateTime 2025 3 5 9 0 0) = ''2025-03-05''"
  by code_simp+

lemma spike_frame_days:
  "map date_str (map (\<lambda>d. DateTime 2025 3 d 9 0 0) spike_days)
     = replicate 2 ''2025-03-01'' @ replicate 3 ''2025-03-02'' @ replicate 2 ''2025-03-03''
       @ replicate 3 ''2025-03-04'' @ replicate 20 ''2025-03-05''"
  by (simp only: spike_days_def map_append map_replicate spike_dates)

lemma spike_frame_counts:
  "groupby_size (replicate 2 ''2025-03-01'' @ replicate 3 ''2025-03-02'' @ replicate 2 ''2025-03-03''
       @ replicate 3 ''2025-03-04'' @ replicate 20 ''2025-03-05'')
     = [(''2025-03-01'', 2), (''2025-03-02'', 3), (''2025-03-03'', 2), (''2025-03-04'', 3),
        (''2025-03-05'', 20)]"
  by code_simp





lemma sqrt_strict: "7 < sqrt (246 / 4)"
  by (rule real_less_rsqrt) simp

text \<open>
  Claim C3, as the code has it. For a frame whose daily counts are 2, 3, 2, 3 and 20 over
  five days, the mean is 6 and the sample standard deviation is the square root of 61.5,
  about 7.84, so the threshold, mean plus two standard deviations, lies above 20: no day
  is above it, and \<^verbatim>\<open>detect_anomalies\<close> returns the dict with an empty volume entry.
\<close>

theorem volume_anomalies_five_days:
  assumes ne: "df \<noteq> []"
    and tm: "col ''timestamp'' df = Inr (map PTime ts)"
    and s: "col ''sentiment'' df = Inr (map PStr sents)"
    and counts: "map snd (groupby_size (map date_str ts)) = [2, 3, 2, 3, 20]"
  shows "(\<exists>negs. detect_anomalies e df = Inr (df, Anomalies [] negs))
       \<and> spikes (groupby_size (map date_str ts)) = []
       \<and> mean [2, 3, 2, 3, 20] = 6
       \<and> (std [2, 3, 2, 3, 20])\<^sup>2 = 123 / 2
       \<and> 20 < mean [2, 3, 2, 3, 20] + 2 * std [2, 3, 2, 3, 20]"
proof -
  have l: "length (groupby_size (map date_str ts)) = 5"
    using arg_cong [OF counts, of length] by simp
  note sp = spikes_five [OF counts]
  have a: "\<exists>negs. detect_anomalies e df = Inr (df, Anomalies [] negs)"
    using detect_anomalies_cols [OF ne tm s, of e] by (simp add: l sp)
  have v: "(std [2, 3, 2, 3, 20])\<^sup>2 = 123 / 2"
    unfolding std_five by simp
  have t: "20 < mean [2, 3, 2, 3, 20] + 2 * std [2, 3, 2, 3, 20]"
    unfolding std_five mean_five using sqrt_strict by simp
  show ?thesis by (intro conjI) (rule a, rule sp, rule mean_five, rule v, rule t)
qed

lemma spike_frame_nonempty: "spike_frame \<noteq> []"
  by (simp add: spike_frame_def spike_days_def)

lemma spike_frame_day_counts:
  "groupby_size (map date_str (map (\<lambda>d. DateTime 2025 3 d 9 0 0) spike_days))
     = [(''2025-03-01'', 2), (''2025-03-02'', 3), (''2025-03-03'', 2), (''2025-03-04'', 3),
        (''2025-03-05'', 20)]"
  unfolding spike_frame_days by (rule spike_frame_counts)

theorem volume_anomalies_five_days_witness:
  "spike_frame \<noteq> []
   \<and> map snd (groupby_size (map date_str (map (\<lambda>d. DateTime 2025 3 d 9 0 0) spike_days)))
       = [2, 3, 2, 3, 20]
   \<and> (\<exists>negs. detect_anomalies env0 spike_frame = Inr (spike_frame, Anomalies [] negs))"
proof -
  have counts: "map snd (groupby_size (map date_str (map (\<lambda>d. DateTime 2025 3 d 9 0 0) spike_days)))
       = [2, 3, 2, 3, 20]"
    unfolding spike_frame_day_counts by simp
  note th = volume_anomalies_five_days [OF spike_frame_nonempty spike_frame_timestamps
      spike_frame_sentiments counts, of env0]
  show ?thesis
    by (intro conjI) (rule spike_frame_nonempty, rule counts, rule th [THEN conjunct1])
qed

text \<open>
  Claim C3 as stated fails: on a batch of thirty rows with daily counts 2, 3, 2, 3 and 20
  over five days, \<^verbatim>\<open>detect_anomalies\<close> flags no day; the day with count 20 is not in the
  volume entry.
\<close>

theorem spike_not_flagged_counterexample:
  "length spike_frame = 30
   \<and> day_column spike_frame
       = Inr (map date_str (map (\<lambda>d. DateTime 2025 3 d 9 0 0) spike_days))
   \<and> groupby_size (map date_str (map (\<lambda>d. DateTime 2025 3 d 9 0 0) spike_days))
       = [(''2025-03-01'', 2), (''2025-03-02'', 3), (''2025-03-03'', 2), (''2025-03-04'', 3),
          (''2025-03-05'', 20)]
   \<and> detect_anomalies env0 spike_frame = Inr (spike_frame, Anomalies [] [])"
proof -
  have len: "length spike_frame = 30" by (simp add: spike_frame_def spike_days_def)
  note dc = day_column_times [OF spike_frame_timestamps]
  have l: "length (groupby_size (map date_str (map (\<lambda>d. DateTime 2025 3 d 9 0 0) spike_days))) = 5"
    unfolding spike_frame_day_counts by simp
  have counts: "map snd (groupby_size (map date_str (map (\<lambda>d. DateTime 2025 3 d 9 0 0) spike_days)))
       = [2, 3, 2, 3, 20]"
    unfolding spike_frame_day_counts by simp
  note sp = spikes_five [OF counts]
  have nn: "filter (\<lambda>(s, d). s = ''negative'')
              (zip (map (\<lambda>d. ''neutral'') spike_days)
                   (map date_str (map (\<lambda>d. DateTime 2025 3 d 9 0 0) spike_days))) = []"
    by (auto simp: filter_empty_conv dest!: set_zip_leftD)
  have r: "detect_anomalies env0 spike_frame = Inr (spike_frame, Anomalies [] [])"
    using detect_anomalies_cols [OF spike_frame_nonempty spike_frame_timestamps
        spike_frame_sentiments, of env0]
    by (simp add: l sp nn del: map_map)
  show ?thesis by (intro conjI) (rule len, rule dc, rule spike_frame_day_counts, rule r)
qed

end
